theory Spec2Isabelle
  imports Main "HOL-Library.Sublist"
begin

section \<open>Go values\<close>

text \<open>
  Go strings are byte sequences: a \<^typ>\<open>string\<close> here is the list of bytes. A call either
  returns or stops the program with a run-time panic (an index out of range); the model
  keeps the panic as a value, so that "never fails" is a statement about the model.
\<close>

datatype 'a go = Panic | Return 'a

text \<open>
  An error value: the sentinel of \<open>path/filepath\<close>, or an error known by its message
  (\<open>err.Error()\<close>), as \<open>fmt.Errorf\<close> and the operating system make them.
\<close>

datatype error = ErrBadPattern | Error string

fun message :: "error \<Rightarrow> string" where
  "message ErrBadPattern = ''syntax error in pattern''"
| "message (Error m) = m"

definition Separator :: char where
  "Separator = CHR ''/''"

definition backslash :: char where
  "backslash = CHR 0x5C"

section \<open>unicode/utf8 (standard library)\<close>

definition RuneError :: nat where
  "RuneError = 0xFFFD"

text \<open>
  \<open>utf8.DecodeRuneInString\<close>: the rune at the front of the string and its width. The
  masks and shifts of the source are written as \<open>mod\<close> and multiplication on \<^typ>\<open>nat\<close>
  (the bit fields do not overlap).
\<close>

fun DecodeRuneInString :: "string \<Rightarrow> nat \<times> nat" where
  "DecodeRuneInString [] = (RuneError, 0)"
| "DecodeRuneInString (c0 # s) =
     (let s0 = (of_char c0 :: nat) in
      if s0 < 0x80 then (s0, 1)
      else if s0 < 0xC2 \<or> 0xF4 < s0 then (RuneError, 1)
      else
        let sz = (if s0 < 0xE0 then 2 else if s0 < 0xF0 then 3 else (4::nat));
            lo = (if s0 = 0xE0 then 0xA0 else if s0 = 0xF0 then 0x90 else (0x80::nat));
            hi = (if s0 = 0xED then 0x9F else if s0 = 0xF4 then 0x8F else (0xBF::nat))
        in if Suc (length s) < sz then (RuneError, 1)
           else
             let s1 = (of_char (s ! 0) :: nat) in
             if s1 < lo \<or> hi < s1 then (RuneError, 1)
             else if sz \<le> 2 then ((s0 mod 32) * 64 + s1 mod 64, 2)
             else
               let s2 = (of_char (s ! 1) :: nat) in
               if s2 < 0x80 \<or> 0xBF < s2 then (RuneError, 1)
               else if sz \<le> 3 then ((s0 mod 16) * 4096 + (s1 mod 64) * 64 + s2 mod 64, 3)
               else
                 let s3 = (of_char (s ! 2) :: nat) in
                 if s3 < 0x80 \<or> 0xBF < s3 then (RuneError, 1)
                 else ((s0 mod 8) * 262144 + (s1 mod 64) * 4096 + (s2 mod 64) * 64
                        + s3 mod 64, 4))"

section \<open>strings and path/filepath (standard library, Unix build)\<close>

definition HasSuffix :: "string \<Rightarrow> string \<Rightarrow> bool" where
  "HasSuffix s suf = (length suf \<le> length s \<and> drop (length s - length suf) s = suf)"

definition TrimSuffix :: "string \<Rightarrow> string \<Rightarrow> string" where
  "TrimSuffix s suf = (if HasSuffix s suf then take (length s - length suf) s else s)"

definition HasPrefix :: "string \<Rightarrow> string \<Rightarrow> bool" where
  "HasPrefix s pre = (length pre \<le> length s \<and> take (length pre) s = pre)"

text \<open>\<open>strings.Split\<close> with a one-byte separator: one more part than separators.\<close>

fun Split :: "string \<Rightarrow> char \<Rightarrow> string list" where
  "Split [] sep = [[]]"
| "Split (c # s) sep =
     (if c = sep then [] # Split s sep
      else (case Split s sep of p # ps \<Rightarrow> (c # p) # ps | [] \<Rightarrow> [[c]]))"

text \<open>
  \<open>filepath.Base\<close>: the last element of the path; trailing separators are removed
  first; \<open>.\<close> for the empty path, a single separator for a path of separators only.
\<close>

fun stripTrailing :: "string \<Rightarrow> string" where
  "stripTrailing s = rev (dropWhile (\<lambda>c. c = Separator) (rev s))"

fun lastElement :: "string \<Rightarrow> string" where
  "lastElement s = rev (takeWhile (\<lambda>c. c \<noteq> Separator) (rev s))"

definition Base :: "string \<Rightarrow> string" where
  "Base path =
     (if path = [] then ''.''
      else let p = lastElement (stripTrailing path)
           in if p = [] then [Separator] else p)"

subsection \<open>filepath.Match\<close>

text \<open>\<open>scanChunk\<close>: the index at which the scan for the next unbracketed star stops.\<close>

fun scanLoop :: "string \<Rightarrow> bool \<Rightarrow> nat" where
  "scanLoop [] inrange = 0"
| "scanLoop (c # p) inrange =
     (if c = backslash then (case p of [] \<Rightarrow> 1 | _ # p' \<Rightarrow> 2 + scanLoop p' inrange)
      else if c = CHR ''['' then 1 + scanLoop p True
      else if c = CHR '']'' then 1 + scanLoop p False
      else if c = CHR ''*'' \<and> \<not> inrange then 0
      else 1 + scanLoop p inrange)"

definition scanChunk :: "string \<Rightarrow> bool \<times> string \<times> string" where
  "scanChunk pattern =
     (let star = (pattern \<noteq> [] \<and> hd pattern = CHR ''*'');
          pattern1 = dropWhile (\<lambda>c. c = CHR ''*'') pattern;
          i = scanLoop pattern1 False
      in (star, take i pattern1, drop i pattern1))"

text \<open>\<open>getEsc\<close>: a possibly escaped character of a character class.\<close>

definition getEsc :: "string \<Rightarrow> error + (nat \<times> string)" where
  "getEsc chunk =
     (if chunk = [] \<or> hd chunk = CHR ''-'' \<or> hd chunk = CHR '']'' then Inl ErrBadPattern
      else
        let chunk1 = (if hd chunk = backslash then tl chunk else chunk) in
        if chunk1 = [] then Inl ErrBadPattern
        else
          let (r, n) = DecodeRuneInString chunk1;
              nchunk = drop n chunk1
          in if r = RuneError \<and> n = 1 then Inl ErrBadPattern
             else if nchunk = [] then Inl ErrBadPattern
             else Inr (r, nchunk))"

lemma getEsc_shorter: "getEsc chunk = Inr (r, nchunk) \<Longrightarrow> length nchunk < length chunk"
proof -
  assume a: "getEsc chunk = Inr (r, nchunk)"
  then have ne: "chunk \<noteq> []" by (auto simp: getEsc_def)
  define chunk1 where "chunk1 = (if hd chunk = backslash then tl chunk else chunk)"
  have l1: "length chunk1 \<le> length chunk" by (simp add: chunk1_def)
  from a have ne1: "chunk1 \<noteq> []"
    by (auto simp: getEsc_def chunk1_def Let_def split: if_splits)
  from a have "nchunk = drop (snd (DecodeRuneInString chunk1)) chunk1" and "nchunk \<noteq> []"
    by (auto simp: getEsc_def chunk1_def [symmetric] Let_def split: if_splits prod.splits)
  moreover have "0 < snd (DecodeRuneInString chunk1)"
    using ne1 by (cases chunk1) (auto simp: Let_def)
  ultimately have "length nchunk < length chunk1" using ne1 by (cases chunk1) auto
  with l1 show ?thesis by simp
qed

text \<open>The loop over the ranges of one character class, from after \<open>[\<close> or \<open>[^\<close>.\<close>

function classLoop :: "string \<Rightarrow> nat \<Rightarrow> bool \<Rightarrow> nat \<Rightarrow> (error + (string \<times> bool)) go" where
  "classLoop chunk r match nrange =
     (if chunk \<noteq> [] \<and> hd chunk = CHR '']'' \<and> nrange > 0 then Return (Inr (tl chunk, match))
      else
        (case getEsc chunk of
           Inl e \<Rightarrow> Return (Inl e)
         | Inr (lo, chunk1) \<Rightarrow>
             (case chunk1 of
                [] \<Rightarrow> Panic
              | c # cs \<Rightarrow>
                  if c = CHR ''-'' then
                    (case getEsc cs of
                       Inl e \<Rightarrow> Return (Inl e)
                     | Inr (hi, chunk2) \<Rightarrow>
                         classLoop chunk2 r (match \<or> (lo \<le> r \<and> r \<le> hi)) (nrange + 1))
                  else classLoop chunk1 r (match \<or> (lo \<le> r \<and> r \<le> lo)) (nrange + 1))))"
  by pat_completeness auto
termination
proof (relation "measure (\<lambda>(chunk, r, m, n). length chunk)", goal_cases)
  case 1
  show ?case by simp
next
  case (2 chunk r match nrange x2 lo chunk1 c cs x2a hi chunk2)
  then have "length chunk1 < length chunk" "length chunk2 < length cs"
    by (auto dest: getEsc_shorter)
  with 2 show ?case by simp
next
  case (3 chunk r match nrange x2 lo chunk1 c cs)
  then show ?case by (auto dest: getEsc_shorter)
qed

declare classLoop.simps [simp del]

lemma classLoop_shorter:
  "classLoop chunk r match nrange = Return (Inr (chunk', match')) \<Longrightarrow> length chunk' \<le> length chunk"
proof (induction chunk r match nrange rule: classLoop.induct)
  case (1 chunk r match nrange)
  show ?case
  proof (cases "chunk \<noteq> [] \<and> hd chunk = CHR '']'' \<and> nrange > 0")
    case True
    with "1.prems" show ?thesis by (auto simp: classLoop.simps [of chunk])
  next
    case False
    from False "1.prems" obtain lo chunk1 where g: "getEsc chunk = Inr (lo, chunk1)"
      by (cases "getEsc chunk") (auto simp: classLoop.simps [of chunk])
    from False "1.prems" g obtain c cs where c1: "chunk1 = c # cs"
      by (cases chunk1) (auto simp: classLoop.simps [of chunk])
    have l1: "length chunk1 < length chunk" using g by (rule getEsc_shorter)
    show ?thesis
    proof (cases "c = CHR ''-''")
      case True
      from False "1.prems" g c1 True obtain hi chunk2 where g2: "getEsc cs = Inr (hi, chunk2)"
        by (cases "getEsc cs") (auto simp: classLoop.simps [of chunk])
      have "length chunk2 < length cs" using g2 by (rule getEsc_shorter)
      moreover have "length chunk' \<le> length chunk2"
        using "1.IH"(1) [OF False g refl c1 True g2 refl] "1.prems" False g c1 True g2
        by (simp add: classLoop.simps [of chunk])
      ultimately show ?thesis using l1 c1 by simp
    next
      case F2: False
      have "length chunk' \<le> length chunk1"
        using "1.IH"(2) [OF False g refl c1 F2] "1.prems" False g c1 F2
        by (simp add: classLoop.simps [of chunk])
      then show ?thesis using l1 by simp
    qed
  qed
qed

text \<open>
  \<open>matchChunk\<close>: does the chunk match the beginning of \<open>s\<close>? The result is the tuple
  \<open>(rest, ok, err)\<close> of the source. After the match has failed the loop goes on, only
  checking that the chunk is well formed.
\<close>

function matchLoop :: "string \<Rightarrow> string \<Rightarrow> bool \<Rightarrow> (string \<times> bool \<times> error option) go" where
  "matchLoop [] s failed = Return (if failed then ([], False, None) else (s, True, None))"
| "matchLoop (c # chunk) s failed0 =
     (let failed = (failed0 \<or> s = []) in
      if c = CHR ''['' then
        (let r = (if failed then 0 else fst (DecodeRuneInString s));
             s1 = (if failed then s else drop (snd (DecodeRuneInString s)) s);
             negated = (chunk \<noteq> [] \<and> hd chunk = CHR ''^'');
             chunk1 = (if negated then tl chunk else chunk)
         in case classLoop chunk1 r False 0 of
              Panic \<Rightarrow> Panic
            | Return (Inl e) \<Rightarrow> Return ([], False, Some e)
            | Return (Inr (chunk2, match)) \<Rightarrow> matchLoop chunk2 s1 (failed \<or> match = negated))
      else if c = CHR ''?'' then
        (if failed then matchLoop chunk s failed
         else (case s of
                 [] \<Rightarrow> Panic
               | x # _ \<Rightarrow> matchLoop chunk (drop (snd (DecodeRuneInString s)) s) (x = Separator)))
      else if c = backslash then
        (case chunk of
           [] \<Rightarrow> Return ([], False, Some ErrBadPattern)
         | c' # chunk' \<Rightarrow>
             (if failed then matchLoop chunk' s failed
              else (case s of [] \<Rightarrow> Panic | x # s' \<Rightarrow> matchLoop chunk' s' (c' \<noteq> x))))
      else
        (if failed then matchLoop chunk s failed
         else (case s of [] \<Rightarrow> Panic | x # s' \<Rightarrow> matchLoop chunk s' (c \<noteq> x))))"
  by pat_completeness auto
termination
  by (relation "measure (\<lambda>(chunk, s, failed). length chunk)")
     (auto dest!: classLoop_shorter split: if_splits)

definition matchChunk :: "string \<Rightarrow> string \<Rightarrow> (string \<times> bool \<times> error option) go" where
  "matchChunk chunk s = matchLoop chunk s False"

text \<open>The loop of \<open>Match\<close> that lets a leading star skip \<open>i + 1\<close> bytes of the name.\<close>

datatype star_result = Continue string | Fail error | Exhausted

fun starLoop :: "string \<Rightarrow> bool \<Rightarrow> string \<Rightarrow> star_result go" where
  "starLoop chunk lastChunk [] = Return Exhausted"
| "starLoop chunk lastChunk (c # name') =
     (if c = Separator then Return Exhausted
      else
        (case matchChunk chunk name' of
           Panic \<Rightarrow> Panic
         | Return (t, ok, err) \<Rightarrow>
             if ok then
               (if lastChunk \<and> t \<noteq> [] then starLoop chunk lastChunk name'
                else Return (Continue t))
             else
               (case err of
                  Some e \<Rightarrow> Return (Fail e)
                | None \<Rightarrow> starLoop chunk lastChunk name')))"

lemma scanLoop_pos: "p \<noteq> [] \<Longrightarrow> hd p \<noteq> CHR ''*'' \<Longrightarrow> 0 < scanLoop p inrange"
  by (cases p) (auto split: list.splits)

lemma scanChunk_shorter:
  assumes "pattern \<noteq> []" and "scanChunk pattern = (star, chunk, rest)"
  shows "length rest < length pattern"
proof (cases "hd pattern = CHR ''*''")
  case True
  with assms(1) have "length (dropWhile (\<lambda>c. c = CHR ''*'') pattern) < length pattern"
    by (cases pattern) (auto intro: le_imp_less_Suc length_dropWhile_le)
  with assms(2) show ?thesis by (auto simp: scanChunk_def Let_def)
next
  case False
  with assms(1) have dw: "dropWhile (\<lambda>c. c = CHR ''*'') pattern = pattern"
    by (cases pattern) auto
  have "0 < scanLoop pattern False" using assms(1) False by (rule scanLoop_pos)
  with assms dw show ?thesis by (auto simp: scanChunk_def Let_def)
qed

lemma scanChunk_shorter':
  "(star, chunk, rest) = scanChunk pattern \<Longrightarrow> pattern \<noteq> [] \<Longrightarrow> length rest < length pattern"
  using scanChunk_shorter [of pattern star chunk rest] by simp

text \<open>Before \<open>Match\<close> returns false, the rest of the pattern is checked for syntax errors.\<close>

function syntaxCheck :: "string \<Rightarrow> error option go" where
  "syntaxCheck pattern =
     (if pattern = [] then Return None
      else
        (case scanChunk pattern of
           (star, chunk, rest) \<Rightarrow>
             (case matchChunk chunk [] of
                Panic \<Rightarrow> Panic
              | Return (t, ok, err) \<Rightarrow>
                  (case err of Some e \<Rightarrow> Return (Some e) | None \<Rightarrow> syntaxCheck rest))))"
  by pat_completeness auto
termination
  by (relation "measure length") (auto dest: scanChunk_shorter')

declare syntaxCheck.simps [simp del]

text \<open>\<open>filepath.Match\<close>: the pair \<open>(matched, err)\<close>.\<close>

function Match :: "string \<Rightarrow> string \<Rightarrow> (bool \<times> error option) go" where
  "Match pattern name =
     (if pattern = [] then Return (name = [], None)
      else
        (case scanChunk pattern of
           (star, chunk, rest) \<Rightarrow>
             if star \<and> chunk = [] then Return (Separator \<notin> set name, None)
             else
               (case matchChunk chunk name of
                  Panic \<Rightarrow> Panic
                | Return (t, ok, err) \<Rightarrow>
                    if ok \<and> (t = [] \<or> rest \<noteq> []) then Match rest t
                    else
                      (case err of
                         Some e \<Rightarrow> Return (False, Some e)
                       | None \<Rightarrow>
                           (case (if star then starLoop chunk (rest = []) name
                                  else Return Exhausted) of
                              Panic \<Rightarrow> Panic
                            | Return (Continue t') \<Rightarrow> Match rest t'
                            | Return (Fail e) \<Rightarrow> Return (False, Some e)
                            | Return Exhausted \<Rightarrow>
                                (case syntaxCheck rest of
                                   Panic \<Rightarrow> Panic
                                 | Return e \<Rightarrow> Return (False, e)))))))"
  by pat_completeness auto
termination
  by (relation "measure (\<lambda>(pattern, name). length pattern)")
     (auto dest: scanChunk_shorter')

declare Match.simps [simp del]

section \<open>archive.go: shouldExclude\<close>

text \<open>The inner loop over the parts of the path.\<close>

fun anyPartMatches :: "string \<Rightarrow> string list \<Rightarrow> bool go" where
  "anyPartMatches pattern [] = Return False"
| "anyPartMatches pattern (part # parts) =
     (case Match pattern part of
        Panic \<Rightarrow> Panic
      | Return (matched, _) \<Rightarrow> if matched then Return True else anyPartMatches pattern parts)"

fun shouldExclude :: "string \<Rightarrow> string list \<Rightarrow> bool go" where
  "shouldExclude path [] = Return False"
| "shouldExclude path (pattern # patterns) =
     (if HasSuffix pattern ''/''
         \<and> (let dirPattern = TrimSuffix pattern ''/''
            in path = dirPattern \<or> HasPrefix path (dirPattern @ [Separator]))
      then Return True
      else if path = pattern then Return True
      else
        (case anyPartMatches pattern (Split path Separator) of
           Panic \<Rightarrow> Panic
         | Return True \<Rightarrow> Return True
         | Return False \<Rightarrow>
             (case Match pattern (Base path) of
                Panic \<Rightarrow> Panic
              | Return (matched, _) \<Rightarrow>
                  if matched then Return True else shouldExclude path patterns)))"

section \<open>registry.go\<close>

subsection \<open>fmt: the verb \<open>%d\<close>\<close>

definition digit :: "nat \<Rightarrow> char" where
  "digit d = ''0123456789'' ! d"

fun decimal :: "nat \<Rightarrow> string" where
  "decimal n = (if n < 10 then [digit n] else decimal (n div 10) @ [digit (n mod 10)])"

declare decimal.simps [simp del]

definition Sprintd :: "int \<Rightarrow> string" where
  "Sprintd i = (if i < 0 then CHR ''-'' # decimal (nat (- i)) else decimal (nat i))"

subsection \<open>net/http and os, as far as the client uses them\<close>

record request =
  Method :: string
  URL :: string
  Header :: "string \<rightharpoonup> string"
  ContentLength :: int
  ReqBody :: string

text \<open>
  A response: its status code and the bytes \<open>io.ReadAll(resp.Body)\<close> yields (the code
  discards the error of \<open>ReadAll\<close>).
\<close>

record response =
  StatusCode :: int
  Body :: string

definition StatusOK :: int where "StatusOK = 200"
definition StatusCreated :: int where "StatusCreated = 201"
definition StatusNotFound :: int where "StatusNotFound = 404"

text \<open>
  The world outside the program: the files by path, the failures of \<open>Stat\<close> and of
  parsing a URL, the registry's answer to a request, and the requests sent so far.
\<close>

record world =
  files :: "string \<rightharpoonup> string"
  statError :: "string \<Rightarrow> error option"
  urlError :: "string \<Rightarrow> error option"
  respond :: "request \<Rightarrow> error + response"
  sent :: "request list"

definition Open :: "world \<Rightarrow> string \<Rightarrow> error + string" where
  "Open w path =
     (case files w path of
        None \<Rightarrow> Inl (Error (''open '' @ path @ '': no such file or directory''))
      | Some content \<Rightarrow> Inr content)"

definition Stat_Size :: "world \<Rightarrow> string \<Rightarrow> string \<Rightarrow> error + int" where
  "Stat_Size w path content =
     (case statError w path of Some e \<Rightarrow> Inl e | None \<Rightarrow> Inr (int (length content)))"

definition NewRequestWithContext :: "world \<Rightarrow> string \<Rightarrow> string \<Rightarrow> string \<Rightarrow> error + request" where
  "NewRequestWithContext w method url body =
     (case urlError w url of
        Some e \<Rightarrow> Inl e
      | None \<Rightarrow>
          Inr \<lparr>Method = method, URL = url, Header = Map.empty, ContentLength = 0,
               ReqBody = body\<rparr>)"

definition Header_Set :: "request \<Rightarrow> string \<Rightarrow> string \<Rightarrow> request" where
  "Header_Set req key v = req\<lparr>Header := (Header req)(key \<mapsto> v)\<rparr>"

definition Do :: "world \<Rightarrow> request \<Rightarrow> (error + response) \<times> world" where
  "Do w req = (respond w req, w\<lparr>sent := sent w @ [req]\<rparr>)"

subsection \<open>The client\<close>

record RegistryClient =
  baseURL :: string
  token :: string

record Release =
  Version :: string
  Checksum :: string
  Signature :: string
  Metadata :: "string \<rightharpoonup> string"

definition ListReleases ::
  "RegistryClient \<Rightarrow> world \<Rightarrow> string \<Rightarrow> string \<Rightarrow> (error + Release list) \<times> world" where
  "ListReleases c w scope name =
     (let endpoint = ''/'' @ scope @ ''/'' @ name in
      case NewRequestWithContext w ''GET'' (baseURL c @ endpoint) [] of
        Inl err \<Rightarrow> (Inl err, w)
      | Inr req0 \<Rightarrow>
          let req1 = Header_Set req0 ''Authorization'' (''Bearer '' @ token c);
              req = Header_Set req1 ''Accept'' ''application/vnd.swift.registry.v1+json''
          in case Do w req of
               (Inl err, w') \<Rightarrow> (Inl err, w')
             | (Inr resp, w') \<Rightarrow>
                 if StatusCode resp = StatusNotFound then (Inr [], w')
                 else if StatusCode resp \<noteq> StatusOK then
                   (Inl (Error (''failed to list releases: status '' @ Sprintd (StatusCode resp)
                                @ '': '' @ Body resp)), w')
                 else (Inr [], w'))"

definition GetRelease ::
  "RegistryClient \<Rightarrow> world \<Rightarrow> string \<Rightarrow> string \<Rightarrow> string
     \<Rightarrow> (error + Release option) \<times> world" where
  "GetRelease c w scope name version =
     (let endpoint = ''/'' @ scope @ ''/'' @ name @ ''/'' @ version in
      case NewRequestWithContext w ''GET'' (baseURL c @ endpoint) [] of
        Inl err \<Rightarrow> (Inl err, w)
      | Inr req0 \<Rightarrow>
          let req1 = Header_Set req0 ''Authorization'' (''Bearer '' @ token c);
              req = Header_Set req1 ''Accept'' ''application/vnd.swift.registry.v1+json''
          in case Do w req of
               (Inl err, w') \<Rightarrow> (Inl err, w')
             | (Inr resp, w') \<Rightarrow>
                 if StatusCode resp = StatusNotFound then (Inr None, w')
                 else if StatusCode resp \<noteq> StatusOK then
                   (Inl (Error (''failed to get release: status '' @ Sprintd (StatusCode resp)
                                @ '': '' @ Body resp)), w')
                 else
                   (Inr (Some \<lparr>Version = version, Checksum = [], Signature = [],
                               Metadata = Map.empty\<rparr>), w'))"

definition Publish ::
  "RegistryClient \<Rightarrow> world \<Rightarrow> string \<Rightarrow> string \<Rightarrow> string \<Rightarrow> string \<Rightarrow> string
     \<Rightarrow> error option \<times> world" where
  "Publish c w scope name version archivePath checksum =
     (let endpoint = ''/'' @ scope @ ''/'' @ name @ ''/'' @ version in
      case Open w archivePath of
        Inl err \<Rightarrow> (Some (Error (''failed to open archive: '' @ message err)), w)
      | Inr file \<Rightarrow>
          (case Stat_Size w archivePath file of
             Inl err \<Rightarrow> (Some (Error (''failed to stat archive: '' @ message err)), w)
           | Inr fileSize \<Rightarrow>
               (case NewRequestWithContext w ''PUT'' (baseURL c @ endpoint) file of
                  Inl err \<Rightarrow> (Some err, w)
                | Inr req0 \<Rightarrow>
                    let req1 = req0\<lparr>ContentLength := fileSize\<rparr>;
                        req2 = Header_Set req1 ''Authorization'' (''Bearer '' @ token c);
                        req3 = Header_Set req2 ''Content-Type'' ''application/zip'';
                        req4 = Header_Set req3 ''Accept''
                                 ''application/vnd.swift.registry.v1+json'';
                        req = Header_Set req4 ''Digest'' (''sha-256='' @ checksum)
                    in case Do w req of
                         (Inl err, w') \<Rightarrow>
                           (Some (Error (''publish request failed: '' @ message err)), w')
                       | (Inr resp, w') \<Rightarrow>
                           if StatusCode resp \<noteq> StatusCreated \<and> StatusCode resp \<noteq> StatusOK
                           then
                             (Some (Error (''publish failed with status ''
                                           @ Sprintd (StatusCode resp) @ '': '' @ Body resp)), w')
                           else (None, w'))))"

definition VersionExists ::
  "RegistryClient \<Rightarrow> world \<Rightarrow> string \<Rightarrow> string \<Rightarrow> string \<Rightarrow> (error + bool) \<times> world" where
  "VersionExists c w scope name version =
     (case GetRelease c w scope name version of
        (Inl err, w') \<Rightarrow> (Inl err, w')
      | (Inr release, w') \<Rightarrow> (Inr (release \<noteq> None), w'))"

section \<open>regexp (standard library), as far as the manifest functions use it\<close>

text \<open>
  The matcher reads its input rune by rune, with \<open>utf8.DecodeRune\<close>: a byte that is not
  valid UTF-8 is the rune \<open>U+FFFD\<close> of width 1.
\<close>

definition step :: "string \<Rightarrow> (nat \<times> nat) option" where
  "step s = (if s = [] then None else Some (DecodeRuneInString s))"

lemma DecodeRuneInString_width: "s \<noteq> [] \<Longrightarrow> 0 < snd (DecodeRuneInString s)"
  by (cases s) (auto simp: Let_def)

lemma DecodeRuneInString_width':
  "(r, w) = DecodeRuneInString s \<Longrightarrow> s \<noteq> [] \<Longrightarrow> 0 < w"
  using DecodeRuneInString_width [of s] by (metis snd_conv)

lemma step_width: "step s = Some (r, w) \<Longrightarrow> 0 < w \<and> s \<noteq> []"
  using DecodeRuneInString_width [of s] by (auto simp: step_def split: if_splits)

text \<open>
  The syntax tree of a pattern, for the operators the two patterns of the program use: a
  rune of a class, greedy \<open>*\<close> and \<open>+\<close> on a class, a greedy optional non-capturing
  group of these, and the parentheses of a capturing group.
\<close>

datatype charclass = Literal nat | OneOf "nat list" | NoneOf "nat list" | Range nat nat

fun accepts :: "charclass \<Rightarrow> nat \<Rightarrow> bool" where
  "accepts (Literal c) r = (r = c)"
| "accepts (OneOf cs) r = (r \<in> set cs)"
| "accepts (NoneOf cs) r = (r \<notin> set cs)"
| "accepts (Range lo hi) r = (lo \<le> r \<and> r \<le> hi)"

datatype atom = One charclass | Star charclass | Plus charclass

datatype item = Atom atom | Opt "atom list" | Open nat | Close nat

fun atomWeight :: "atom \<Rightarrow> nat" where
  "atomWeight (One c) = 1"
| "atomWeight (Star c) = 1"
| "atomWeight (Plus c) = 3"

fun weight :: "item list \<Rightarrow> nat" where
  "weight [] = 0"
| "weight (Atom a # rs) = atomWeight a + weight rs"
| "weight (Opt as # rs) = Suc (sum_list (map atomWeight as) + weight rs)"
| "weight (Open n # rs) = Suc (weight rs)"
| "weight (Close n # rs) = Suc (weight rs)"

lemma weight_atoms: "weight (map Atom as @ rs) = sum_list (map atomWeight as) + weight rs"
  by (induction as) simp_all

text \<open>
  Leftmost-first matching at one position, as a backtracking search: the greedy
  operators try the longer alternative first. \<open>pos\<close> counts the bytes matched so far and
  the result is the length of the match with the bounds of the groups, relative to the
  start of the match.
\<close>

type_synonym groups = "nat \<rightharpoonup> nat \<times> nat"

function matchHere :: "item list \<Rightarrow> string \<Rightarrow> nat \<Rightarrow> groups \<Rightarrow> (nat \<times> groups) option" where
  "matchHere [] s pos caps = Some (pos, caps)"
| "matchHere (Atom (One c) # rs) s pos caps =
     (case step s of
        None \<Rightarrow> None
      | Some (r, w) \<Rightarrow> if accepts c r then matchHere rs (drop w s) (pos + w) caps else None)"
| "matchHere (Atom (Star c) # rs) s pos caps =
     (case step s of
        None \<Rightarrow> matchHere rs s pos caps
      | Some (r, w) \<Rightarrow>
          if accepts c r then
            (case matchHere (Atom (Star c) # rs) (drop w s) (pos + w) caps of
               Some m \<Rightarrow> Some m
             | None \<Rightarrow> matchHere rs s pos caps)
          else matchHere rs s pos caps)"
| "matchHere (Atom (Plus c) # rs) s pos caps =
     matchHere (Atom (One c) # Atom (Star c) # rs) s pos caps"
| "matchHere (Opt as # rs) s pos caps =
     (case matchHere (map Atom as @ rs) s pos caps of
        Some m \<Rightarrow> Some m
      | None \<Rightarrow> matchHere rs s pos caps)"
| "matchHere (Open n # rs) s pos caps = matchHere rs s pos (caps(n \<mapsto> (pos, pos)))"
| "matchHere (Close n # rs) s pos caps =
     matchHere rs s pos
       (case caps n of None \<Rightarrow> caps | Some (b, e) \<Rightarrow> caps(n \<mapsto> (b, pos)))"
  by pat_completeness auto
termination
  by (relation "(\<lambda>(rs, s, pos, caps). length s) <*mlex*> measure (\<lambda>(rs, s, pos, caps). weight rs)")
     (auto simp: wf_mlex mlex_less mlex_leq weight_atoms dest!: step_width)

text \<open>
  The search for the leftmost match from byte \<open>pos\<close> of the input: the start and the end
  of the match in the input, and the groups.
\<close>

function find :: "item list \<Rightarrow> string \<Rightarrow> nat \<Rightarrow> (nat \<times> nat \<times> groups) option" where
  "find re src pos =
     (case matchHere re (drop pos src) 0 Map.empty of
        Some (len, caps) \<Rightarrow> Some (pos, pos + len, caps)
      | None \<Rightarrow>
          (case step (drop pos src) of
             None \<Rightarrow> None
           | Some (r, w) \<Rightarrow> find re src (pos + w)))"
  by pat_completeness auto
termination
  by (relation "measure (\<lambda>(re, src, pos). length src - pos)") (auto dest!: step_width)

declare find.simps [simp del]

text \<open>The text of group \<open>n\<close> of a match that starts at byte \<open>a0\<close>; group 0 is the match.\<close>

definition groupText :: "string \<Rightarrow> nat \<times> nat \<times> groups \<Rightarrow> nat \<Rightarrow> string option" where
  "groupText src m n =
     (case m of
        (a0, a1, caps) \<Rightarrow>
          if n = 0 then Some (take (a1 - a0) (drop a0 src))
          else (case caps n of
                  None \<Rightarrow> None
                | Some (b, e) \<Rightarrow> Some (take (e - b) (drop (a0 + b) src))))"

subsection \<open>Templates: \<open>Regexp.expand\<close>\<close>

text \<open>
  \<open>unicode.IsLetter\<close> and \<open>unicode.IsDigit\<close>: written out for ASCII; the tables for the
  other runes are the parameter \<open>uni\<close>.
\<close>

definition wordRune :: "(nat \<Rightarrow> bool) \<Rightarrow> nat \<Rightarrow> bool" where
  "wordRune uni r =
     (if r < 0x80 then
        (0x41 \<le> r \<and> r \<le> 0x5A) \<or> (0x61 \<le> r \<and> r \<le> 0x7A) \<or> (0x30 \<le> r \<and> r \<le> 0x39)
        \<or> r = 0x5F
      else uni r)"

function nameLength :: "(nat \<Rightarrow> bool) \<Rightarrow> string \<Rightarrow> nat" where
  "nameLength uni str =
     (if str = [] then 0
      else (case DecodeRuneInString str of
              (r, width) \<Rightarrow>
                if wordRune uni r then width + nameLength uni (drop width str) else 0))"
  by pat_completeness auto
termination
  by (relation "measure (\<lambda>(uni, str). length str)") (auto dest: DecodeRuneInString_width')

declare nameLength.simps [simp del]

text \<open>The number a name denotes, or -1: digits only, no leading zero, below \<open>1e8\<close>.\<close>

fun parseNumber :: "string \<Rightarrow> int \<Rightarrow> int" where
  "parseNumber [] num = num"
| "parseNumber (c # name) num =
     (if (of_char c :: nat) < 0x30 \<or> 0x39 < (of_char c :: nat) \<or> num \<ge> 100000000 then -1
      else parseNumber name (num * 10 + int (of_char c) - 48))"

definition extractName :: "(nat \<Rightarrow> bool) \<Rightarrow> string \<Rightarrow> (string \<times> int \<times> string) option" where
  "extractName uni str =
     (if str = [] then None
      else
        let brace = (hd str = CHR ''{'');
            str1 = (if brace then tl str else str);
            i = nameLength uni str1
        in if i = 0 then None
           else
             let name = take i str1 in
             if brace \<and> (i \<ge> length str1 \<or> str1 ! i \<noteq> CHR ''}'') then None
             else
               let i1 = (if brace then i + 1 else i);
                   num = parseNumber name 0;
                   num1 = (if hd name = CHR ''0'' \<and> length name > 1 then -1 else num)
               in Some (name, num1, drop i1 str1))"

lemma extractName_shorter: "extractName uni str = Some (name, num, rest) \<Longrightarrow> length rest \<le> length str"
  by (auto simp: extractName_def Let_def split: if_splits)

text \<open>\<open>strings.Cut\<close> with a one-byte separator.\<close>

fun Cut :: "string \<Rightarrow> char \<Rightarrow> (string \<times> string) option" where
  "Cut [] sep = None"
| "Cut (c # s) sep =
     (if c = sep then Some ([], s)
      else (case Cut s sep of None \<Rightarrow> None | Some (before, after) \<Rightarrow> Some (c # before, after)))"

lemma Cut_shorter: "Cut s sep = Some (before, after) \<Longrightarrow> length after < length s"
  by (induction s arbitrary: before) (auto split: if_splits option.splits)

text \<open>
  \<open>expand\<close>, for a pattern without named groups (a name that is not a number expands to
  nothing).
\<close>

function expand :: "(nat \<Rightarrow> bool) \<Rightarrow> string \<Rightarrow> string \<Rightarrow> string \<Rightarrow> nat \<times> nat \<times> groups \<Rightarrow> string" where
  "expand uni dst template src m =
     (case Cut template CHR ''$'' of
        None \<Rightarrow> dst @ template
      | Some (before, after) \<Rightarrow>
          let dst1 = dst @ before
          in if after \<noteq> [] \<and> hd after = CHR ''$'' then expand uni (dst1 @ ''$'') (tl after) src m
             else
               (case extractName uni after of
                  None \<Rightarrow> expand uni (dst1 @ ''$'') after src m
                | Some (name, num, rest) \<Rightarrow>
                    if num \<ge> 0 then
                      (case groupText src m (nat num) of
                         Some g \<Rightarrow> expand uni (dst1 @ g) rest src m
                       | None \<Rightarrow> expand uni dst1 rest src m)
                    else expand uni dst1 rest src m))"
  by pat_completeness auto
termination
  by (relation "measure (\<lambda>(uni, dst, template, src, m). length template)")
     (auto dest!: Cut_shorter extractName_shorter)

declare expand.simps [simp del]

subsection \<open>\<open>Match\<close>, \<open>FindSubmatch\<close> and \<open>ReplaceAll\<close>\<close>

definition Regexp_Match :: "item list \<Rightarrow> string \<Rightarrow> bool" where
  "Regexp_Match re b = (find re b 0 \<noteq> None)"

text \<open>\<open>FindSubmatch\<close>: the texts of the match and of the groups up to \<open>numSubexp\<close>.\<close>

definition FindSubmatch :: "item list \<Rightarrow> nat \<Rightarrow> string \<Rightarrow> string option list" where
  "FindSubmatch re numSubexp b =
     (case find re b 0 of
        None \<Rightarrow> []
      | Some m \<Rightarrow> map (groupText b m) [0..<Suc numSubexp])"

lemma find_bounds: "find re src pos = Some (a0, a1, caps) \<Longrightarrow> pos \<le> a0 \<and> a0 \<le> a1"
proof (induction re src pos rule: find.induct)
  case (1 re src pos)
  show ?case
  proof (cases "matchHere re (drop pos src) 0 Map.empty")
    case (Some m)
    with "1.prems" show ?thesis by (subst (asm) find.simps) (auto split: prod.splits)
  next
    case None
    with "1.prems" obtain r w where st: "step (drop pos src) = Some (r, w)"
      and f: "find re src (pos + w) = Some (a0, a1, caps)"
      by (subst (asm) find.simps) (auto split: option.splits)
    from "1.IH" [OF None st refl f] show ?thesis by simp
  qed
qed

text \<open>
  The loop of \<open>replaceAll\<close>: \<open>lastMatchEnd\<close> and \<open>searchPos\<close> are positions in \<open>src\<close>;
  \<open>repl\<close> appends the replacement of a match to the buffer.
\<close>

function replaceLoop ::
  "item list \<Rightarrow> (string \<Rightarrow> nat \<times> nat \<times> groups \<Rightarrow> string) \<Rightarrow> string \<Rightarrow> nat \<Rightarrow> nat \<Rightarrow> string
     \<Rightarrow> string" where
  "replaceLoop re repl src lastMatchEnd searchPos buf =
     (if searchPos > length src then buf @ drop lastMatchEnd src
      else
        (case find re src searchPos of
           None \<Rightarrow> buf @ drop lastMatchEnd src
         | Some (a0, a1, caps) \<Rightarrow>
             let buf1 = buf @ take (a0 - lastMatchEnd) (drop lastMatchEnd src);
                 buf2 = (if a1 > lastMatchEnd \<or> a0 = 0 then repl buf1 (a0, a1, caps) else buf1);
                 width = snd (DecodeRuneInString (drop searchPos src));
                 searchPos1 =
                   (if searchPos + width > a1 then searchPos + width
                    else if searchPos + 1 > a1 then searchPos + 1
                    else a1)
             in replaceLoop re repl src a1 searchPos1 buf2))"
  by pat_completeness auto
termination
  by (relation "measure (\<lambda>(re, repl, src, lastMatchEnd, searchPos, buf). Suc (length src) - searchPos)")
     (auto dest!: find_bounds split: if_splits)

declare replaceLoop.simps [simp del]

definition ReplaceAll_Regexp :: "(nat \<Rightarrow> bool) \<Rightarrow> item list \<Rightarrow> string \<Rightarrow> string \<Rightarrow> string" where
  "ReplaceAll_Regexp uni re src repl =
     replaceLoop re (\<lambda>dst m. expand uni dst repl src m) src 0 0 []"

section \<open>The manifest (Package.swift): UpdateVersionConstant and ExtractSwiftToolsVersion\<close>

subsection \<open>os.ReadFile and os.WriteFile\<close>

text \<open>
  The files by path, and the errors of reading and of writing a path. A write that fails
  is one that fails on opening the file: nothing is changed.
\<close>

record manifest_fs =
  contents :: "string \<rightharpoonup> string"
  readFileError :: "string \<Rightarrow> error option"
  writeFileError :: "string \<Rightarrow> error option"

definition ReadFile :: "manifest_fs \<Rightarrow> string \<Rightarrow> error + string" where
  "ReadFile w path =
     (case readFileError w path of
        Some e \<Rightarrow> Inl e
      | None \<Rightarrow>
          (case contents w path of
             None \<Rightarrow> Inl (Error (''open '' @ path @ '': no such file or directory''))
           | Some b \<Rightarrow> Inr b))"

definition WriteFile :: "manifest_fs \<Rightarrow> string \<Rightarrow> string \<Rightarrow> manifest_fs \<times> error option" where
  "WriteFile w path b =
     (case writeFileError w path of
        Some e \<Rightarrow> (w, Some e)
      | None \<Rightarrow> (w\<lparr>contents := (contents w)(path \<mapsto> b)\<rparr>, None))"

subsection \<open>The two patterns\<close>

text \<open>The classes \<open>\s\<close> and \<open>\d\<close> (ASCII), and a literal text of ASCII bytes.\<close>

definition space :: charclass where
  "space = OneOf [0x09, 0x0A, 0x0C, 0x0D, 0x20]"

definition digitClass :: charclass where
  "digitClass = Range 0x30 0x39"

definition lit :: "string \<Rightarrow> atom list" where
  "lit s = map (\<lambda>c. One (Literal (of_char c))) s"

text \<open>
  The runes of a string, and the check of the pattern parser: a pattern that is not
  valid UTF-8 does not compile, and \<open>MustCompile\<close> panics.
\<close>

function runes :: "string \<Rightarrow> nat list" where
  "runes s =
     (if s = [] then []
      else (case DecodeRuneInString s of (r, width) \<Rightarrow> r # runes (drop width s)))"
  by pat_completeness auto
termination
  by (relation "measure length") (auto dest: DecodeRuneInString_width')

declare runes.simps [simp del]

function checkUTF8 :: "string \<Rightarrow> bool" where
  "checkUTF8 s =
     (if s = [] then True
      else (case DecodeRuneInString s of
              (r, width) \<Rightarrow>
                if r = RuneError \<and> width = 1 then False else checkUTF8 (drop width s)))"
  by pat_completeness auto
termination
  by (relation "measure length") (auto dest: DecodeRuneInString_width')

declare checkUTF8.simps [simp del]

text \<open>
  The pattern \<^verbatim>\<open>(let\s+NAME\s*(?::\s*String\s*)?=\s*")([^"]+)(")\<close>, where \<open>NAME\<close> is
  \<open>regexp.QuoteMeta(constantName)\<close>: every rune of the name stands for itself.
\<close>

definition versionPattern :: "string \<Rightarrow> item list" where
  "versionPattern constantName =
     [Open 1] @ map Atom (lit ''let'') @ [Atom (Plus space)]
     @ map (\<lambda>r. Atom (One (Literal r))) (runes constantName)
     @ [Atom (Star space),
        Opt ([One (Literal 0x3A), Star space] @ lit ''String'' @ [Star space]),
        Atom (One (Literal 0x3D)), Atom (Star space), Atom (One (Literal 0x22)), Close 1,
        Open 2, Atom (Plus (NoneOf [0x22])), Close 2,
        Open 3, Atom (One (Literal 0x22)), Close 3]"

text \<open>The pattern \<^verbatim>\<open>//\s*swift-tools-version:\s*(\d+\.\d+(?:\.\d+)?)\<close>.\<close>

definition toolsVersionPattern :: "item list" where
  "toolsVersionPattern =
     map Atom (lit ''//'') @ [Atom (Star space)] @ map Atom (lit ''swift-tools-version:'')
     @ [Atom (Star space), Open 1, Atom (Plus digitClass), Atom (One (Literal 0x2E)),
        Atom (Plus digitClass), Opt [One (Literal 0x2E), Plus digitClass], Close 1]"

subsection \<open>The two functions\<close>

definition UpdateVersionConstant ::
  "(nat \<Rightarrow> bool) \<Rightarrow> manifest_fs \<Rightarrow> string \<Rightarrow> string \<Rightarrow> string
     \<Rightarrow> (manifest_fs \<times> error option) go" where
  "UpdateVersionConstant uni w path constantName version =
     (case ReadFile w path of
        Inl err \<Rightarrow> Return (w, Some (Error (''failed to read '' @ path @ '': '' @ message err)))
      | Inr content \<Rightarrow>
          if \<not> checkUTF8 constantName then Panic
          else
            let pattern = versionPattern constantName in
            if \<not> Regexp_Match pattern content then
              Return (w, Some (Error (''version constant '' @ [CHR 0x27] @ constantName
                                      @ [CHR 0x27] @ '' not found in '' @ path)))
            else
              let newContent =
                    ReplaceAll_Regexp uni pattern content (''${1}'' @ version @ ''${3}'')
              in (case WriteFile w path newContent of
                    (w', Some err) \<Rightarrow>
                      Return (w', Some (Error (''failed to write '' @ path @ '': ''
                                               @ message err)))
                  | (w', None) \<Rightarrow> Return (w', None)))"

definition ExtractSwiftToolsVersion :: "manifest_fs \<Rightarrow> string \<Rightarrow> error + string" where
  "ExtractSwiftToolsVersion w path =
     (case ReadFile w path of
        Inl err \<Rightarrow> Inl (Error (''failed to read '' @ path @ '': '' @ message err))
      | Inr content \<Rightarrow>
          let matches = FindSubmatch toolsVersionPattern 1 content in
          if length matches < 2 then
            Inl (Error (''swift-tools-version not found in '' @ path))
          else (case matches ! 1 of None \<Rightarrow> Inr [] | Some g \<Rightarrow> Inr g))"

section \<open>archive.go: CreateArchive\<close>

subsection \<open>The source tree\<close>

text \<open>
  What \<open>filepath.Walk\<close> can meet under the source directory: a file (anything that is
  not a directory: \<open>info.IsDir()\<close> is false) with its mode bits and either its bytes or
  the error of opening or reading it; a directory with its entries, in the order in which
  \<open>Walk\<close> visits them (sorted by name); a directory whose entries cannot be read; a name
  on which \<open>Lstat\<close> fails.
\<close>

datatype fsnode =
    File string nat "error + string"
  | Dir string "fsnode list"
  | DirUnreadable string error
  | Unreadable string error

fun nodeName :: "fsnode \<Rightarrow> string" where
  "nodeName (File n m c) = n"
| "nodeName (Dir n cs) = n"
| "nodeName (DirUnreadable n e) = n"
| "nodeName (Unreadable n e) = n"

fun IsDir :: "fsnode \<Rightarrow> bool" where
  "IsDir (Dir n cs) = True"
| "IsDir (DirUnreadable n e) = True"
| "IsDir _ = False"

text \<open>
  The path of a node relative to the source directory, from the names on the way to it:
  \<open>filepath.Rel(sourceDir, path)\<close> is \<open>.\<close> for the source directory itself.
\<close>

fun joinPath :: "string list \<Rightarrow> string" where
  "joinPath [] = []"
| "joinPath [n] = n"
| "joinPath (n # ns) = n @ Separator # joinPath ns"

definition Rel :: "string list \<Rightarrow> string" where
  "Rel names = (if names = [] then ''.'' else joinPath names)"

subsection \<open>The container\<close>

record ArchiveConfig =
  IncludeDocs :: bool
  Exclude :: "string list"

text \<open>An entry of the zip file: the name and mode of its header, and its data.\<close>

record entry =
  Name :: string
  Mode :: nat
  Data :: string

text \<open>
  What the operating system and the libraries decide: the temporary file (or the error of
  creating it), the errors of writing an entry, of closing the zip writer, of seeking,
  of reading the file back, of closing it and of removing a file; the bytes of a zip
  file with given entries, the bytes that are in the file while the zip writer has not
  been closed successfully, and SHA-256.
\<close>

record archive_env =
  createTemp :: "error + string"
  writeError :: "string \<Rightarrow> error option"
  zipCloseError :: "error option"
  seekError :: "error option"
  copyError :: "error option"
  closeError :: "error option"
  removeError :: "string \<Rightarrow> error option"
  zipBytes :: "entry list \<Rightarrow> string"
  partialBytes :: "entry list \<Rightarrow> string"
  sha256 :: "string \<Rightarrow> string"

text \<open>What a \<open>WalkFunc\<close> and \<open>walk\<close> return: nil, \<open>filepath.SkipDir\<close>, or an error.\<close>

datatype signal = Nil | SkipDir | Failed error

definition ReplaceAll :: "string \<Rightarrow> char \<Rightarrow> char \<Rightarrow> string" where
  "ReplaceAll s old new = map (\<lambda>c. if c = old then new else c) s"

definition addFileToZip ::
  "archive_env \<Rightarrow> entry list \<Rightarrow> fsnode \<Rightarrow> string \<Rightarrow> signal \<times> entry list" where
  "addFileToZip env zipWriter node relativePath =
     (case node of
        File n mode (Inl err) \<Rightarrow> (Failed err, zipWriter)
      | File n mode (Inr bytes) \<Rightarrow>
          (let headerName = ReplaceAll relativePath Separator CHR ''/'' in
           case writeError env headerName of
             Some err \<Rightarrow> (Failed err, zipWriter)
           | None \<Rightarrow>
               (Nil, zipWriter @ [\<lparr>Name = headerName, Mode = mode, Data = bytes\<rparr>]))
      | Dir n cs \<Rightarrow> (Failed (Error (''read '' @ relativePath @ '': is a directory'')), zipWriter)
      | DirUnreadable n e \<Rightarrow> (Failed e, zipWriter)
      | Unreadable n e \<Rightarrow> (Failed e, zipWriter))"

text \<open>The function that CreateArchive passes to \<open>filepath.Walk\<close>.\<close>

definition walkFn ::
  "archive_env \<Rightarrow> ArchiveConfig \<Rightarrow> entry list \<Rightarrow> string list \<Rightarrow> fsnode \<Rightarrow> error option
     \<Rightarrow> (signal \<times> entry list) go" where
  "walkFn env cfg zipWriter names info err =
     (case err of
        Some e \<Rightarrow> Return (Failed e, zipWriter)
      | None \<Rightarrow>
          let relPath = Rel names in
          if relPath = ''.'' then Return (Nil, zipWriter)
          else
            (case shouldExclude relPath (Exclude cfg) of
               Panic \<Rightarrow> Panic
             | Return True \<Rightarrow> Return (if IsDir info then SkipDir else Nil, zipWriter)
             | Return False \<Rightarrow>
                 if IsDir info then Return (Nil, zipWriter)
                 else Return (addFileToZip env zipWriter info relPath)))"

text \<open>\<open>walk\<close> and \<open>Walk\<close> of \<open>path/filepath\<close>, with the function above.\<close>

fun walk ::
  "archive_env \<Rightarrow> ArchiveConfig \<Rightarrow> string list \<Rightarrow> fsnode \<Rightarrow> entry list
     \<Rightarrow> (signal \<times> entry list) go"
and walkNames ::
  "archive_env \<Rightarrow> ArchiveConfig \<Rightarrow> string list \<Rightarrow> fsnode list \<Rightarrow> entry list
     \<Rightarrow> (signal \<times> entry list) go" where
  "walk env cfg names (Dir n entries) zipWriter =
     (case walkFn env cfg zipWriter names (Dir n entries) None of
        Panic \<Rightarrow> Panic
      | Return (Nil, zipWriter1) \<Rightarrow> walkNames env cfg names entries zipWriter1
      | Return (err1, zipWriter1) \<Rightarrow> Return (err1, zipWriter1))"
| "walk env cfg names (DirUnreadable n e) zipWriter =
     walkFn env cfg zipWriter names (DirUnreadable n e) (Some e)"
| "walk env cfg names (Unreadable n e) zipWriter =
     walkFn env cfg zipWriter names (Unreadable n e) (Some e)"
| "walk env cfg names (File n m c) zipWriter = walkFn env cfg zipWriter names (File n m c) None"
| "walkNames env cfg names [] zipWriter = Return (Nil, zipWriter)"
| "walkNames env cfg names (Unreadable n e # rest) zipWriter =
     (case walkFn env cfg zipWriter (names @ [n]) (Unreadable n e) (Some e) of
        Panic \<Rightarrow> Panic
      | Return (err, zipWriter1) \<Rightarrow>
          if err \<noteq> Nil \<and> err \<noteq> SkipDir then Return (err, zipWriter1)
          else walkNames env cfg names rest zipWriter1)"
| "walkNames env cfg names (child # rest) zipWriter =
     (case walk env cfg (names @ [nodeName child]) child zipWriter of
        Panic \<Rightarrow> Panic
      | Return (err, zipWriter1) \<Rightarrow>
          if err \<noteq> Nil \<and> (\<not> IsDir child \<or> err \<noteq> SkipDir) then Return (err, zipWriter1)
          else walkNames env cfg names rest zipWriter1)"

text \<open>
  \<open>Walk\<close>: when \<open>Lstat\<close> fails on the root the function is called with the error;
  \<open>SkipDir\<close> from the root is nil.
\<close>

definition Walk ::
  "archive_env \<Rightarrow> ArchiveConfig \<Rightarrow> fsnode \<Rightarrow> entry list \<Rightarrow> (error option \<times> entry list) go" where
  "Walk env cfg root zipWriter =
     (case walk env cfg [] root zipWriter of
        Panic \<Rightarrow> Panic
      | Return (Failed e, zipWriter1) \<Rightarrow> Return (Some e, zipWriter1)
      | Return (_, zipWriter1) \<Rightarrow> Return (None, zipWriter1))"

subsection \<open>encoding/hex\<close>

definition hextable :: string where
  "hextable = ''0123456789abcdef''"

fun EncodeToString :: "string \<Rightarrow> string" where
  "EncodeToString [] = []"
| "EncodeToString (c # s) =
     hextable ! ((of_char c :: nat) div 16) # hextable ! ((of_char c :: nat) mod 16)
       # EncodeToString s"

subsection \<open>CreateArchive\<close>

text \<open>
  \<open>os.Remove\<close>: the files afterwards and the error. A removal that fails leaves the file
  as it is.
\<close>

definition Remove ::
  "archive_env \<Rightarrow> (string \<rightharpoonup> string) \<Rightarrow> string \<Rightarrow> (string \<rightharpoonup> string) \<times> error option" where
  "Remove env fs path =
     (case removeError env path of
        Some err \<Rightarrow> (fs, Some err)
      | None \<Rightarrow> (fs(path := None), None))"

text \<open>
  The result is the triple of the source and the files afterwards. Until the zip writer
  has been closed successfully the temporary file holds the bytes written so far; after
  that it holds the container. On every error path the code calls \<open>os.Remove\<close> and
  discards its error.
\<close>

definition CreateArchive ::
  "archive_env \<Rightarrow> (string \<rightharpoonup> string) \<Rightarrow> fsnode \<Rightarrow> string \<Rightarrow> ArchiveConfig
     \<Rightarrow> ((string \<times> string \<times> error option) \<times> (string \<rightharpoonup> string)) go" where
  "CreateArchive env fs sourceDir version cfg =
     (case createTemp env of
        Inl err \<Rightarrow>
          Return (([], [], Some (Error (''failed to create temp file: '' @ message err))), fs)
      | Inr archivePath \<Rightarrow>
          (case Walk env cfg sourceDir [] of
             Panic \<Rightarrow> Panic
           | Return (Some err, zipWriter) \<Rightarrow>
               (let fs1 = fs(archivePath \<mapsto> partialBytes env zipWriter) in
                Return (([], [], Some (Error (''failed to create archive: '' @ message err))),
                        fst (Remove env fs1 archivePath)))
           | Return (None, zipWriter) \<Rightarrow>
               (case zipCloseError env of
                  Some err \<Rightarrow>
                    (let fs1 = fs(archivePath \<mapsto> partialBytes env zipWriter) in
                     Return (([], [], Some (Error (''failed to close zip writer: ''
                                                   @ message err))),
                             fst (Remove env fs1 archivePath)))
                | None \<Rightarrow>
                    (let container = zipBytes env zipWriter;
                         fs2 = fs(archivePath \<mapsto> container)
                     in case seekError env of
                          Some err \<Rightarrow>
                            Return (([], [], Some (Error (''failed to seek archive: ''
                                                          @ message err))),
                                    fst (Remove env fs2 archivePath))
                        | None \<Rightarrow>
                            (case copyError env of
                               Some err \<Rightarrow>
                                 Return (([], [], Some (Error (''failed to calculate checksum: ''
                                                               @ message err))),
                                         fst (Remove env fs2 archivePath))
                             | None \<Rightarrow>
                                 (let checksum = EncodeToString (sha256 env container)
                                  in case closeError env of
                                       Some err \<Rightarrow>
                                         Return (([], [], Some (Error (''failed to close archive: ''
                                                                       @ message err))),
                                                 fst (Remove env fs2 archivePath))
                                     | None \<Rightarrow>
                                         Return ((archivePath, checksum, None), fs2)))))))"

section \<open>Notions used to state the properties of shouldExclude\<close>

text \<open>A pattern without glob metacharacters.\<close>

definition literal :: "string \<Rightarrow> bool" where
  "literal p = (\<forall>c \<in> set p. c \<noteq> CHR ''*'' \<and> c \<noteq> CHR ''?'' \<and> c \<noteq> CHR ''['' \<and> c \<noteq> backslash)"

text \<open>What \<open>matched, _ := filepath.Match(pattern, name)\<close> keeps, and what it drops.\<close>

fun matched :: "(bool \<times> error option) go \<Rightarrow> bool" where
  "matched (Return (m, e)) = m"
| "matched Panic = False"

fun matchError :: "(bool \<times> error option) go \<Rightarrow> bool" where
  "matchError (Return (m, Some e)) = True"
| "matchError (Return (m, None)) = False"
| "matchError Panic = False"

text \<open>The first step of the loop body: the directory pattern.\<close>

definition dirMatch :: "string \<Rightarrow> string \<Rightarrow> bool" where
  "dirMatch path pattern =
     (HasSuffix pattern ''/''
      \<and> (let dirPattern = TrimSuffix pattern ''/''
         in path = dirPattern \<or> HasPrefix path (dirPattern @ [Separator])))"

text \<open>One pattern excludes the path: some step of the loop body returns true.\<close>

definition excludes :: "string \<Rightarrow> string \<Rightarrow> bool" where
  "excludes path pattern =
     (dirMatch path pattern \<or> path = pattern
      \<or> (\<exists>part \<in> set (Split path Separator). matched (Match pattern part))
      \<or> matched (Match pattern (Base path)))"

section \<open>A client and a world for the examples of the registry\<close>

definition exampleClient :: RegistryClient where
  "exampleClient = \<lparr>baseURL = ''https://registry.example'', token = ''t''\<rparr>"

text \<open>One archive on disk, and a registry that answers every request alike.\<close>

definition exampleWorld :: "int \<Rightarrow> string \<Rightarrow> world" where
  "exampleWorld status body =
     \<lparr>files = [''/tmp/a.zip'' \<mapsto> ''PK''], statError = (\<lambda>_. None), urlError = (\<lambda>_. None),
      respond = (\<lambda>_. Inr \<lparr>StatusCode = status, Body = body\<rparr>), sent = []\<rparr>"

section \<open>Notions used to state the properties of CreateArchive\<close>

text \<open>\<open>reaches root names n\<close>: following the names down from the root leads to the node.\<close>

inductive reaches :: "fsnode \<Rightarrow> string list \<Rightarrow> fsnode \<Rightarrow> bool" where
  here: "reaches n [] n"
| down: "child \<in> set entries \<Longrightarrow> reaches child names n
         \<Longrightarrow> reaches (Dir d entries) (nodeName child # names) n"

text \<open>The relative path is the root's, or no pattern of the configuration excludes it.\<close>

definition kept :: "ArchiveConfig \<Rightarrow> string list \<Rightarrow> bool" where
  "kept cfg names =
     (Rel names = ''.'' \<or> shouldExclude (Rel names) (Exclude cfg) = Return False)"

text \<open>
  The entry \<open>e\<close> was written for a file: \<open>ns\<close> leads from the node down to a file that
  could be read, whose relative path (\<open>names\<close> is the way to the node) is not the root's,
  and the entry has this path as its name, with the file's mode and bytes.
\<close>

definition fileEntry :: "fsnode \<Rightarrow> string list \<Rightarrow> string list \<Rightarrow> entry \<Rightarrow> bool" where
  "fileEntry node names ns e =
     (\<exists>n mode bytes. reaches node ns (File n mode (Inr bytes))
        \<and> e = \<lparr>Name = ReplaceAll (Rel (names @ ns)) Separator CHR ''/'', Mode = mode, Data = bytes\<rparr>
        \<and> Rel (names @ ns) \<noteq> ''.'')"

text \<open>Every new entry was written for a file, and every path from the node to it was kept.\<close>

definition added :: "ArchiveConfig \<Rightarrow> fsnode \<Rightarrow> string list \<Rightarrow> entry list \<Rightarrow> bool" where
  "added cfg node names new =
     (\<forall>e \<in> set new. \<exists>ns. fileEntry node names ns e
        \<and> (\<forall>k. length names \<le> k \<and> k \<le> length (names @ ns) \<longrightarrow> kept cfg (take k (names @ ns))))"

text \<open>A source tree, a configuration and an environment for the examples.\<close>

definition exampleTree :: fsnode where
  "exampleTree =
     Dir ''pkg''
       [Dir ''.git'' [File ''config'' 420 (Inr ''[core]'')],
        File ''Package.swift'' 420 (Inr ''// swift-tools-version:5.7''),
        Dir ''Sources'' [File ''main.swift'' 420 (Inr ''print()'')],
        Dir ''Tests'' [File ''test.swift'' 420 (Inr ''import XCTest'')],
        Dir ''project.xcodeproj'' [File ''foo'' 420 (Inr ''xcode file'')]]"

definition exampleConfig :: ArchiveConfig where
  "exampleConfig =
     \<lparr>IncludeDocs = True, Exclude = [''.git'', ''.build'', ''Tests'', ''*.xcodeproj'']\<rparr>"

text \<open>The container and the digest are stand-ins: any functions will do.\<close>

definition exampleEnv :: archive_env where
  "exampleEnv =
     \<lparr>createTemp = Inr ''/tmp/swift-package-1.zip'', writeError = (\<lambda>_. None),
      zipCloseError = None, seekError = None, copyError = None, closeError = None,
      removeError = (\<lambda>_. None),
      zipBytes = (\<lambda>es. concat (map (\<lambda>e. Name e @ Data e) es)),
      partialBytes = (\<lambda>es. concat (map (\<lambda>e. Name e @ Data e) es)),
      sha256 = (\<lambda>s. [CHR 0xAB, CHR 0x0F])\<rparr>"

section \<open>No call panics\<close>

lemma getEsc_nonempty: "getEsc chunk = Inr (r, nchunk) \<Longrightarrow> nchunk \<noteq> []"
  by (auto simp: getEsc_def Let_def split: if_splits prod.splits)

lemma classLoop_no_panic: "classLoop chunk r match nrange \<noteq> Panic"
proof (induction chunk r match nrange rule: classLoop.induct)
  case (1 chunk r match nrange)
  show ?case
  proof (cases "chunk \<noteq> [] \<and> hd chunk = CHR '']'' \<and> nrange > 0")
    case True
    then show ?thesis by (simp add: classLoop.simps [of chunk])
  next
    case False
    show ?thesis
    proof (cases "getEsc chunk")
      case (Inl e)
      with False show ?thesis by (simp add: classLoop.simps [of chunk])
    next
      case (Inr p)
      then obtain lo chunk1 where g: "getEsc chunk = Inr (lo, chunk1)" by (cases p) auto
      then obtain c cs where c1: "chunk1 = c # cs"
        using getEsc_nonempty [OF g] by (cases chunk1) auto
      show ?thesis
      proof (cases "c = CHR ''-''")
        case True
        show ?thesis
        proof (cases "getEsc cs")
          case (Inl e)
          with False g c1 True show ?thesis by (simp add: classLoop.simps [of chunk])
        next
          case (Inr q)
          then obtain hi chunk2 where g2: "getEsc cs = Inr (hi, chunk2)" by (cases q) auto
          from "1.IH"(1) [OF False g refl c1 True g2 refl] False g c1 True g2
          show ?thesis by (simp add: classLoop.simps [of chunk])
        qed
      next
        case F2: False
        from "1.IH"(2) [OF False g refl c1 F2] False g c1 F2
        show ?thesis by (simp add: classLoop.simps [of chunk])
      qed
    qed
  qed
qed

declare matchLoop.simps(2) [simp del]

lemma matchLoop_no_panic: "matchLoop chunk s failed \<noteq> Panic"
proof (induction "length chunk" arbitrary: chunk s failed rule: less_induct)
  case less
  show ?case
  proof (cases chunk)
    case Nil
    then show ?thesis by simp
  next
    case (Cons c chunk')
    have IH: "\<And>ch s f. length ch \<le> length chunk' \<Longrightarrow> matchLoop ch s f \<noteq> Panic"
      using less Cons by simp
    define f where "f = (failed \<or> s = [])"
    consider (cls) "c = CHR ''[''" | (q) "c = CHR ''?''"
      | (esc) "c \<noteq> CHR ''[''" "c \<noteq> CHR ''?''" "c = backslash"
      | (lit) "c \<noteq> CHR ''[''" "c \<noteq> CHR ''?''" "c \<noteq> backslash" by blast
    then show ?thesis
    proof cases
      case cls
      define chunk1 where "chunk1 = (if chunk' \<noteq> [] \<and> hd chunk' = CHR ''^'' then tl chunk' else chunk')"
      have l1: "length chunk1 \<le> length chunk'" by (simp add: chunk1_def)
      define r where "r = (if f then 0 else fst (DecodeRuneInString s))"
      show ?thesis
      proof (cases "classLoop chunk1 r False 0")
        case Panic
        then show ?thesis using classLoop_no_panic by blast
      next
        case (Return x)
        show ?thesis
        proof (cases x)
          case (Inl e)
          with Return cls Cons show ?thesis
            by (simp add: matchLoop.simps(2) Let_def chunk1_def r_def f_def)
        next
          case (Inr p)
          obtain chunk2 m where p: "p = (chunk2, m)" by (cases p)
          have "length chunk2 \<le> length chunk1"
            using Return Inr p by (auto dest: classLoop_shorter)
          with l1 have "length chunk2 \<le> length chunk'" by simp
          from IH [OF this] Return Inr p cls Cons show ?thesis
            by (simp add: matchLoop.simps(2) Let_def chunk1_def r_def f_def)
        qed
      qed
    next
      case q
      with Cons IH [of chunk'] show ?thesis
        by (cases s) (simp_all add: matchLoop.simps(2) Let_def)
    next
      case esc
      show ?thesis
      proof (cases chunk')
        case Nil
        with esc Cons show ?thesis by (simp add: matchLoop.simps(2) Let_def)
      next
        case (Cons c' chunk'')
        with esc \<open>chunk = c # chunk'\<close> IH [of chunk''] show ?thesis
          by (cases s) (simp_all add: matchLoop.simps(2) Let_def)
      qed
    next
      case lit
      with Cons IH [of chunk'] show ?thesis
        by (cases s) (simp_all add: matchLoop.simps(2) Let_def)
    qed
  qed
qed

lemma matchChunk_no_panic: "matchChunk chunk s \<noteq> Panic"
  by (simp add: matchChunk_def matchLoop_no_panic)

lemma starLoop_no_panic: "starLoop chunk lastChunk name \<noteq> Panic"
proof (induction name)
  case Nil
  show ?case by simp
next
  case (Cons c name')
  show ?case
  proof (cases "matchChunk chunk name'")
    case Panic
    then show ?thesis using matchChunk_no_panic by blast
  next
    case (Return x)
    obtain t ok err where "x = (t, ok, err)" by (cases x)
    with Return Cons show ?thesis by (auto split: option.splits)
  qed
qed

lemma syntaxCheck_no_panic: "syntaxCheck pattern \<noteq> Panic"
proof (induction "length pattern" arbitrary: pattern rule: less_induct)
  case less
  show ?case
  proof (cases "pattern = []")
    case True
    then show ?thesis by (subst syntaxCheck.simps) simp
  next
    case False
    obtain star chunk rest where sc: "scanChunk pattern = (star, chunk, rest)"
      by (cases "scanChunk pattern")
    have "length rest < length pattern" using False sc by (rule scanChunk_shorter)
    then have IH: "syntaxCheck rest \<noteq> Panic" using less by simp
    obtain t ok err where mc: "matchChunk chunk [] = Return (t, ok, err)"
      using matchChunk_no_panic [of chunk "[]"] by (cases "matchChunk chunk []") auto
    show ?thesis
      using False sc mc IH by (subst syntaxCheck.simps) (auto split: option.splits)
  qed
qed

lemma Match_no_panic: "Match pattern name \<noteq> Panic"
proof (induction "length pattern" arbitrary: pattern name rule: less_induct)
  case less
  show ?case
  proof (cases "pattern = []")
    case True
    then show ?thesis by (subst Match.simps) simp
  next
    case False
    obtain star chunk rest where sc: "scanChunk pattern = (star, chunk, rest)"
      by (cases "scanChunk pattern")
    have "length rest < length pattern" using False sc by (rule scanChunk_shorter)
    then have IH: "\<And>n. Match rest n \<noteq> Panic" using less by simp
    obtain t ok err where mc: "matchChunk chunk name = Return (t, ok, err)"
      using matchChunk_no_panic [of chunk name] by (cases "matchChunk chunk name") auto
    obtain sr where sl: "starLoop chunk (rest = []) name = Return sr"
      using starLoop_no_panic [of chunk "rest = []" name]
      by (cases "starLoop chunk (rest = []) name") auto
    obtain e where sy: "syntaxCheck rest = Return e"
      using syntaxCheck_no_panic [of rest] by (cases "syntaxCheck rest") auto
    show ?thesis
      using False sc mc sl sy IH
      by (subst Match.simps) (auto split: option.splits star_result.splits)
  qed
qed

section \<open>Literal patterns, and shouldExclude as a disjunction\<close>

lemma matchLoop_literal:
  "literal chunk \<Longrightarrow>
   matchLoop chunk s failed =
     Return (if \<not> failed \<and> prefix chunk s then (drop (length chunk) s, True, None)
             else ([], False, None))"
proof (induction chunk arbitrary: s failed)
  case Nil
  show ?case by simp
next
  case (Cons c chunk)
  then have lit: "literal chunk" and c: "c \<noteq> CHR ''*''" "c \<noteq> CHR ''?''" "c \<noteq> CHR ''[''" "c \<noteq> backslash"
    by (auto simp: literal_def)
  show ?case
  proof (cases "failed \<or> s = []")
    case True
    with c Cons.IH [OF lit] show ?thesis
      by (auto simp: matchLoop.simps(2) Let_def)
  next
    case False
    then obtain x s' where s: "s = x # s'" by (cases s) auto
    with False c Cons.IH [OF lit] show ?thesis
      by (auto simp: matchLoop.simps(2) Let_def)
  qed
qed

lemma scanLoop_literal: "literal p \<Longrightarrow> scanLoop p inrange = length p"
proof (induction p arbitrary: inrange)
  case Nil show ?case by simp
next
  case (Cons c p)
  then have "literal p" "c \<noteq> CHR ''*''" "c \<noteq> CHR ''[''" "c \<noteq> backslash" by (auto simp: literal_def)
  with Cons.IH show ?case by simp
qed

lemma scanChunk_literal: "literal p \<Longrightarrow> p \<noteq> [] \<Longrightarrow> scanChunk p = (False, p, [])"
proof -
  assume l: "literal p" and ne: "p \<noteq> []"
  then have "hd p \<noteq> CHR ''*''" by (cases p) (auto simp: literal_def)
  then have "dropWhile (\<lambda>c. c = CHR ''*'') p = p" using ne by (cases p) auto
  then show ?thesis using l ne \<open>hd p \<noteq> CHR ''*''\<close> by (simp add: scanChunk_def Let_def scanLoop_literal)
qed

lemma Match_literal: "literal p \<Longrightarrow> Match p name = Return (p = name, None)"
proof (cases "p = []")
  case True
  then show ?thesis by (subst Match.simps) auto
next
  case False
  assume l: "literal p"
  have sy: "syntaxCheck [] = Return None" by (subst syntaxCheck.simps) simp
  have m0: "Match [] (drop (length p) name) = Return (drop (length p) name = [], None)"
    by (subst Match.simps) simp
  have eq: "prefix p name \<and> drop (length p) name = [] \<longleftrightarrow> p = name"
    by (auto simp: prefix_def)
  show ?thesis
    using False scanChunk_literal [OF l False] matchLoop_literal [OF l, of name False] sy m0 eq
    by (subst Match.simps) (auto simp: matchChunk_def)
qed

lemma anyPartMatches_eq:
  "anyPartMatches pattern parts = Return (\<exists>part \<in> set parts. matched (Match pattern part))"
proof (induction parts)
  case Nil
  show ?case by simp
next
  case (Cons part parts)
  obtain m e where "Match pattern part = Return (m, e)"
    using Match_no_panic [of pattern part] by (cases "Match pattern part") auto
  with Cons show ?case by simp
qed

lemma shouldExclude_eq:
  "shouldExclude path patterns = Return (\<exists>pattern \<in> set patterns. excludes path pattern)"
proof (induction patterns)
  case Nil
  show ?case by simp
next
  case (Cons pattern patterns)
  obtain m e where mb: "Match pattern (Base path) = Return (m, e)"
    using Match_no_panic [of pattern "Base path"] by (cases "Match pattern (Base path)") auto
  show ?case
    using Cons mb
    by (cases "\<exists>part \<in> set (Split path Separator). matched (Match pattern part)")
       (auto simp: excludes_def dirMatch_def anyPartMatches_eq Let_def)
qed

lemma literal_Tests: "literal ''Tests''" by (simp add: literal_def backslash_def)
lemma literal_X: "literal ''X/''" by (simp add: literal_def backslash_def)

lemma excludes_literal:
  "literal pattern \<Longrightarrow>
   excludes path pattern =
     (dirMatch path pattern \<or> path = pattern \<or> pattern \<in> set (Split path Separator)
      \<or> pattern = Base path)"
  by (auto simp: excludes_def Match_literal)

lemma shouldExclude_append:
  "shouldExclude path (ps @ pattern # qs) =
     (if excludes path pattern then Return True else shouldExclude path (ps @ qs))"
  by (auto simp: shouldExclude_eq)

section \<open>Parts, base names and discarded errors\<close>

lemma Split_no_sep: "part \<in> set (Split s sep) \<Longrightarrow> sep \<notin> set part"
proof (induction s arbitrary: part)
  case Nil
  then show ?case by simp
next
  case (Cons c s)
  then show ?case by (cases "Split s sep") (auto split: if_splits)
qed

lemma HasPrefix_iff: "HasPrefix s p \<longleftrightarrow> prefix p s"
  by (auto simp: HasPrefix_def prefix_def) (metis append_take_drop_id)

lemma Base_sep:
  assumes "Separator \<in> set (Base path)"
  shows "path \<noteq> [] \<and> hd path = Separator"
proof -
  from assms have ne: "path \<noteq> []" by (auto simp: Base_def Separator_def)
  define d where "d = dropWhile (\<lambda>c. c = Separator) (rev path)"
  have "Separator \<notin> set (takeWhile (\<lambda>c. c \<noteq> Separator) d)"
    by (auto dest: set_takeWhileD)
  with assms ne have "takeWhile (\<lambda>c. c \<noteq> Separator) d = []"
    by (auto simp: Base_def Let_def d_def split: if_splits)
  then have "d = [] \<or> hd d = Separator" by (cases d) (auto split: if_splits)
  moreover have "d \<noteq> [] \<Longrightarrow> hd d \<noteq> Separator" unfolding d_def by (rule hd_dropWhile)
  ultimately have "d = []" by blast
  then have "\<forall>c \<in> set (rev path). c = Separator" by (simp add: d_def dropWhile_eq_Nil_conv)
  with ne show ?thesis by (cases path) auto
qed

lemma excludes_directory:
  assumes "literal D"
  shows "excludes path (D @ ''/'') \<longleftrightarrow> path = D \<or> prefix (D @ ''/'') path"
proof -
  have lit: "literal (D @ ''/'')" using assms by (auto simp: literal_def backslash_def)
  have dm: "dirMatch path (D @ ''/'') \<longleftrightarrow> path = D \<or> prefix (D @ ''/'') path"
    by (simp add: dirMatch_def HasSuffix_def TrimSuffix_def HasPrefix_iff Separator_def)
  have sp: "D @ ''/'' \<notin> set (Split path Separator)"
    using Split_no_sep [of "D @ ''/''" path Separator] by (auto simp: Separator_def)
  have bs: "D @ ''/'' = Base path \<Longrightarrow> prefix (D @ ''/'') path"
  proof -
    assume eq: "D @ ''/'' = Base path"
    then have "Separator \<in> set (Base path)" by (metis in_set_conv_decomp Separator_def)
    from Base_sep [OF this] have p: "path \<noteq> []" "hd path = Separator" by auto
    have "Separator \<notin> set (Base path) \<or> Base path = [Separator]"
      by (auto simp: Base_def Let_def Separator_def dest: set_takeWhileD)
    with \<open>Separator \<in> set (Base path)\<close> have "Base path = [Separator]" by blast
    with eq have "D = []" by simp
    with p show ?thesis by (cases path) (auto simp: Separator_def)
  qed
  show ?thesis
    unfolding excludes_literal [OF lit] dm using sp bs by auto
qed

lemma Match_error_unmatched: "Match pattern name = Return (m, Some e) \<Longrightarrow> \<not> m"
proof (induction "length pattern" arbitrary: pattern name rule: less_induct)
  case less
  show ?case
  proof (cases "pattern = []")
    case True
    with less.prems show ?thesis by (subst (asm) Match.simps) simp
  next
    case False
    obtain star chunk rest where sc: "scanChunk pattern = (star, chunk, rest)"
      by (cases "scanChunk pattern")
    have "length rest < length pattern" using False sc by (rule scanChunk_shorter)
    then have IH: "\<And>n. Match rest n = Return (m, Some e) \<Longrightarrow> \<not> m"
      using less.hyps [of rest] by simp
    obtain t ok err where mc: "matchChunk chunk name = Return (t, ok, err)"
      using matchChunk_no_panic [of chunk name] by (cases "matchChunk chunk name") auto
    show ?thesis
      using less.prems False sc mc IH
      by (subst (asm) Match.simps)
         (auto split: option.splits star_result.splits go.splits if_splits)
  qed
qed

lemma matchError_unmatched: "matchError (Match pattern name) \<Longrightarrow> \<not> matched (Match pattern name)"
  by (cases "Match pattern name" rule: matchError.cases) (auto dest: Match_error_unmatched)

text \<open>Unfolding rules that evaluate \<open>Match\<close> on a concrete pattern and name.\<close>

lemmas Match_eval =
  Match.simps scanChunk_def matchChunk_def matchLoop.simps classLoop.simps syntaxCheck.simps
  getEsc_def backslash_def RuneError_def Let_def Separator_def

section \<open>The registry client, by the status of the response\<close>

lemmas registry_eval =
  GetRelease_def ListReleases_def Publish_def NewRequestWithContext_def Do_def Open_def
  Stat_Size_def Header_Set_def Let_def StatusOK_def StatusCreated_def StatusNotFound_def
  Sprintd_def decimal.simps digit_def exampleClient_def exampleWorld_def

lemma GetRelease_cases:
  assumes "GetRelease c w scope name version = (r, w')"
    and "sent w' = sent w @ [req]" and "respond w req = Inr resp"
  shows "r = (if StatusCode resp = 404 then Inr None
              else if StatusCode resp = 200 then
                Inr (Some \<lparr>Version = version, Checksum = [], Signature = [], Metadata = Map.empty\<rparr>)
              else Inl (Error (''failed to get release: status '' @ Sprintd (StatusCode resp)
                               @ '': '' @ Body resp)))"
  using assms
  by (auto simp: GetRelease_def Let_def Do_def StatusOK_def StatusNotFound_def
           split: sum.splits if_splits)

lemma ListReleases_cases:
  assumes "ListReleases c w scope name = (r, w')"
    and "sent w' = sent w @ [req]" and "respond w req = Inr resp"
  shows "r = (if StatusCode resp = 404 \<or> StatusCode resp = 200 then Inr []
              else Inl (Error (''failed to list releases: status '' @ Sprintd (StatusCode resp)
                               @ '': '' @ Body resp)))"
  using assms
  by (auto simp: ListReleases_def Let_def Do_def StatusOK_def StatusNotFound_def
           split: sum.splits if_splits)

section \<open>The walk adds entries for files only\<close>

lemma walkFn_error: "walkFn env cfg zw names node (Some e) = Return (Failed e, zw)"
  by (simp add: walkFn_def)

lemma walkFn_dir:
  assumes "walkFn env cfg zw names node None = Return (sig, zw')" and "IsDir node"
  shows "zw' = zw \<and> (sig = Nil \<longrightarrow> kept cfg names)"
  using assms
  by (auto simp: walkFn_def kept_def Let_def split: if_splits go.splits bool.splits)

lemma walkFn_file:
  assumes "walkFn env cfg zw names (File n mode c) None = Return (sig, zw')"
  shows "zw' = zw \<or>
         (\<exists>bytes. c = Inr bytes \<and> kept cfg names \<and> Rel names \<noteq> ''.''
            \<and> zw' = zw @ [\<lparr>Name = ReplaceAll (Rel names) Separator CHR ''/'', Mode = mode,
                               Data = bytes\<rparr>])"
  using assms
  by (auto simp: walkFn_def kept_def Let_def addFileToZip_def
           split: if_splits go.splits bool.splits sum.splits option.splits)

lemma added_Nil: "added cfg node names []"
  by (simp add: added_def)

lemma added_append: "added cfg node names xs \<Longrightarrow> added cfg node names ys \<Longrightarrow> added cfg node names (xs @ ys)"
  by (auto simp: added_def)

lemma added_down:
  assumes "added cfg child (names @ [nodeName child]) new" and "child \<in> set entries"
    and "kept cfg names"
  shows "added cfg (Dir d entries) names new"
  unfolding added_def
proof
  fix e assume "e \<in> set new"
  with assms(1) obtain ns where fe: "fileEntry child (names @ [nodeName child]) ns e"
    and k: "\<forall>k. length (names @ [nodeName child]) \<le> k \<and> k \<le> length ((names @ [nodeName child]) @ ns)
              \<longrightarrow> kept cfg (take k ((names @ [nodeName child]) @ ns))"
    unfolding added_def by blast
  let ?ns = "nodeName child # ns"
  have fe': "fileEntry (Dir d entries) names ?ns e"
    using fe assms(2) by (auto simp: fileEntry_def intro: reaches.down)
  have "\<forall>k. length names \<le> k \<and> k \<le> length (names @ ?ns) \<longrightarrow> kept cfg (take k (names @ ?ns))"
  proof (intro allI impI)
    fix k assume kk: "length names \<le> k \<and> k \<le> length (names @ ?ns)"
    show "kept cfg (take k (names @ ?ns))"
    proof (cases "k = length names")
      case True
      then show ?thesis using assms(3) by simp
    next
      case False
      with kk k show ?thesis by simp
    qed
  qed
  with fe' show "\<exists>ns. fileEntry (Dir d entries) names ns e
        \<and> (\<forall>k. length names \<le> k \<and> k \<le> length (names @ ns) \<longrightarrow> kept cfg (take k (names @ ns)))"
    by blast
qed

lemma walkNames_step:
  assumes "\<nexists>n e. child = Unreadable n e"
  shows "walkNames env cfg names (child # rest) zw =
     (case walk env cfg (names @ [nodeName child]) child zw of
        Panic \<Rightarrow> Panic
      | Return (err, zw1) \<Rightarrow>
          if err \<noteq> Nil \<and> (\<not> IsDir child \<or> err \<noteq> SkipDir) then Return (err, zw1)
          else walkNames env cfg names rest zw1)"
  using assms by (cases child) (auto simp del: walk.simps)

lemma walk_added:
  "walk env cfg names node zw = Return (sig, zw') \<Longrightarrow> \<exists>new. zw' = zw @ new \<and> added cfg node names new"
proof (induction node arbitrary: names zw sig zw')
  case (File n mode c)
  then have w: "walkFn env cfg zw names (File n mode c) None = Return (sig, zw')" by simp
  from walkFn_file [OF w] show ?case
  proof
    assume "zw' = zw"
    then show ?thesis by (auto simp: added_Nil)
  next
    assume "\<exists>bytes. c = Inr bytes \<and> kept cfg names \<and> Rel names \<noteq> ''.''
            \<and> zw' = zw @ [\<lparr>Name = ReplaceAll (Rel names) Separator CHR ''/'', Mode = mode,
                               Data = bytes\<rparr>]"
    then obtain bytes where b: "c = Inr bytes" "kept cfg names" "Rel names \<noteq> ''.''"
      "zw' = zw @ [\<lparr>Name = ReplaceAll (Rel names) Separator CHR ''/'', Mode = mode, Data = bytes\<rparr>]"
      by blast
    have "fileEntry (File n mode c) names []
            \<lparr>Name = ReplaceAll (Rel names) Separator CHR ''/'', Mode = mode, Data = bytes\<rparr>"
      using b by (auto simp: fileEntry_def intro: reaches.here)
    then have "added cfg (File n mode c) names
            [\<lparr>Name = ReplaceAll (Rel names) Separator CHR ''/'', Mode = mode, Data = bytes\<rparr>]"
      unfolding added_def using b(2) by (intro ballI exI [of _ "[]"]) auto
    with b(4) show ?thesis by blast
  qed
next
  case (DirUnreadable n e)
  then show ?case by (auto simp: walkFn_error added_Nil)
next
  case (Unreadable n e)
  then show ?case by (auto simp: walkFn_error added_Nil)
next
  case (Dir d entries)
  obtain s1 zw1 where wf: "walkFn env cfg zw names (Dir d entries) None = Return (s1, zw1)"
    using Dir.prems by (cases "walkFn env cfg zw names (Dir d entries) None") auto
  from walkFn_dir [OF wf] have z1: "zw1 = zw" and kp: "s1 = Nil \<longrightarrow> kept cfg names" by auto
  show ?case
  proof (cases "s1 = Nil")
    case False
    with Dir.prems wf z1 have "zw' = zw" by (cases s1) auto
    then show ?thesis by (auto simp: added_Nil)
  next
    case True
    with Dir.prems wf z1 have wn: "walkNames env cfg names entries zw = Return (sig, zw')" by simp
    from True kp have kept: "kept cfg names" by simp
    have "\<And>children zw sig zw'. set children \<subseteq> set entries \<Longrightarrow>
            walkNames env cfg names children zw = Return (sig, zw') \<Longrightarrow>
            \<exists>new. zw' = zw @ new \<and> added cfg (Dir d entries) names new"
    proof -
      fix children zw sig zw'
      show "set children \<subseteq> set entries \<Longrightarrow>
            walkNames env cfg names children zw = Return (sig, zw') \<Longrightarrow>
            \<exists>new. zw' = zw @ new \<and> added cfg (Dir d entries) names new"
      proof (induction children arbitrary: zw)
        case Nil
        then show ?case by (auto simp: added_Nil)
      next
        case (Cons child rest)
        show ?case
        proof (cases "\<exists>n e. child = Unreadable n e")
          case True
          then obtain n e where c: "child = Unreadable n e" by blast
          with Cons.prems(2) have "zw' = zw" by (simp add: walkFn_error)
          then show ?thesis by (auto simp: added_Nil)
        next
          case False
          note st = walkNames_step [OF False, of env cfg names rest zw]
          obtain err zw1 where w: "walk env cfg (names @ [nodeName child]) child zw = Return (err, zw1)"
            using Cons.prems(2) st
            by (cases "walk env cfg (names @ [nodeName child]) child zw") auto
          have cin: "child \<in> set entries" using Cons.prems(1) by simp
          from Dir.IH [OF cin w] obtain new1 where n1: "zw1 = zw @ new1"
            and a1: "added cfg child (names @ [nodeName child]) new1" by blast
          have a1': "added cfg (Dir d entries) names new1"
            using a1 cin kept by (rule added_down)
          show ?thesis
          proof (cases "err \<noteq> Nil \<and> (\<not> IsDir child \<or> err \<noteq> SkipDir)")
            case True
            with Cons.prems(2) st w have "zw' = zw1" by (auto split: if_splits)
            with n1 a1' show ?thesis by blast
          next
            case F: False
            with Cons.prems(2) st w have "walkNames env cfg names rest zw1 = Return (sig, zw')"
              by (auto split: if_splits)
            with Cons.IH [of zw1] Cons.prems(1) obtain new2 where
              "zw' = zw1 @ new2" "added cfg (Dir d entries) names new2" by auto
            with n1 a1' show ?thesis by (auto intro: added_append)
          qed
        qed
      qed
    qed
    from this [OF subset_refl wn] show ?thesis .
  qed
qed

lemma walkFn_no_panic: "walkFn env cfg zw names node err \<noteq> Panic"
  using shouldExclude_eq [of "Rel names" "Exclude cfg"]
  by (auto simp: walkFn_def Let_def split: option.splits bool.splits)

lemma walk_no_panic: "walk env cfg names node zw \<noteq> Panic"
proof (induction node arbitrary: names zw)
  case (Dir d entries)
  have wn: "\<And>children zw. set children \<subseteq> set entries \<Longrightarrow>
              walkNames env cfg names children zw \<noteq> Panic"
  proof -
    fix children zw
    show "set children \<subseteq> set entries \<Longrightarrow> walkNames env cfg names children zw \<noteq> Panic"
    proof (induction children arbitrary: zw)
      case Nil
      show ?case by simp
    next
      case (Cons child rest)
      show ?case
      proof (cases "\<exists>n e. child = Unreadable n e")
        case True
        then show ?thesis by (auto simp: walkFn_error)
      next
        case False
        have "child \<in> set entries" using Cons.prems by simp
        from Dir.IH [OF this] obtain r where
          "walk env cfg (names @ [nodeName child]) child zw = Return r"
          by (cases "walk env cfg (names @ [nodeName child]) child zw") auto
        then show ?thesis
          using Cons.IH Cons.prems
          by (cases r) (auto simp: walkNames_step [OF False] simp del: walk.simps)
      qed
    qed
  qed
  obtain r where "walkFn env cfg zw names (Dir d entries) None = Return r"
    using walkFn_no_panic [of env cfg zw names "Dir d entries" None]
    by (cases "walkFn env cfg zw names (Dir d entries) None") auto
  then show ?case using wn [OF subset_refl]
    by (cases r) (auto split: signal.splits)
qed (simp_all add: walkFn_no_panic)

lemma Walk_no_panic: "Walk env cfg root zw \<noteq> Panic"
  using walk_no_panic [of env cfg "[]" root zw]
  by (auto simp: Walk_def split: go.splits signal.splits)

lemma Walk_added:
  assumes "Walk env cfg root [] = Return (err, zw)"
  shows "added cfg root [] zw"
proof -
  from assms obtain sig where "walk env cfg [] root [] = Return (sig, zw)"
    by (auto simp: Walk_def split: go.splits signal.splits)
  from walk_added [OF this] show ?thesis by simp
qed

lemma Remove_cases:
  "fst (Remove env fs path) = (if removeError env path = None then fs(path := None) else fs)"
  by (simp add: Remove_def split: option.splits)

lemma CreateArchive_cases:
  assumes "CreateArchive env fs sourceDir version cfg = Return ((archivePath, checksum, err), fs')"
  shows "(err \<noteq> None \<and> archivePath = [] \<and> checksum = []
            \<and> (case createTemp env of
                  Inl e \<Rightarrow> fs' = fs
                | Inr p \<Rightarrow>
                    (\<exists>bytes. fs' = (if removeError env p = None then fs(p := None)
                                    else fs(p \<mapsto> bytes)))))
         \<or> (err = None \<and> createTemp env = Inr archivePath
            \<and> (\<exists>zw. Walk env cfg sourceDir [] = Return (None, zw)
                  \<and> fs' = fs(archivePath \<mapsto> zipBytes env zw)
                  \<and> checksum = EncodeToString (sha256 env (zipBytes env zw))))"
proof (cases "createTemp env")
  case (Inl e)
  with assms show ?thesis by (auto simp: CreateArchive_def)
next
  case (Inr p)
  obtain we zw where w: "Walk env cfg sourceDir [] = Return (we, zw)"
    using Walk_no_panic [of env cfg sourceDir "[]"]
    by (cases "Walk env cfg sourceDir []") auto
  have rm: "\<And>b. \<exists>bytes. fst (Remove env (fs(p \<mapsto> b)) p)
              = (if removeError env p = None then fs(p := None) else fs(p \<mapsto> bytes))"
    by (auto simp: Remove_cases)
  show ?thesis
  proof (cases we)
    case (Some e)
    with assms Inr w rm [of "partialBytes env zw"] show ?thesis
      by (auto simp: CreateArchive_def Let_def)
  next
    case None
    note we = None
    show ?thesis
    proof (cases "zipCloseError env")
      case (Some e)
      with assms Inr w we rm [of "partialBytes env zw"] show ?thesis
        by (auto simp: CreateArchive_def Let_def)
    next
      case None
      note zc = None
      show ?thesis
      proof (cases "seekError env")
        case (Some e)
        with assms Inr w we zc rm [of "zipBytes env zw"] show ?thesis
          by (auto simp: CreateArchive_def Let_def)
      next
        case None
        note sk = None
        show ?thesis
        proof (cases "copyError env")
          case (Some e)
          with assms Inr w we zc sk rm [of "zipBytes env zw"] show ?thesis
            by (auto simp: CreateArchive_def Let_def)
        next
          case None
          note cp = None
          show ?thesis
          proof (cases "closeError env")
            case (Some e)
            with assms Inr w we zc sk cp rm [of "zipBytes env zw"] show ?thesis
              by (auto simp: CreateArchive_def Let_def)
          next
            case None
            with assms Inr w we zc sk cp show ?thesis
              by (auto simp: CreateArchive_def Let_def)
          qed
        qed
      qed
    qed
  qed
qed



lemmas archive_eval =
  CreateArchive_def Walk_def walkFn_def addFileToZip_def Rel_def ReplaceAll_def Remove_def
  HasSuffix_def Base_def hextable_def exampleTree_def exampleConfig_def exampleEnv_def

section \<open>Segment glob\<close>

text \<open>
  C1. With the bare pattern \<open>Tests\<close> anywhere in the pattern list, shouldExclude returns
  true for the paths \<open>Tests\<close>, \<open>Tests/Foo.swift\<close> and \<open>src/Tests/Foo.swift\<close>. For the
  path \<open>Sources/Tests.swift\<close> the pattern contributes nothing: the result is the one of
  the list without it (false when \<open>Tests\<close> is the only pattern), because no segment of
  the path and not its base name is \<open>Tests\<close>.
\<close>

theorem segment_glob_Tests:
  "(''Tests'' \<in> set patterns \<longrightarrow>
      shouldExclude ''Tests'' patterns = Return True
      \<and> shouldExclude ''Tests/Foo.swift'' patterns = Return True
      \<and> shouldExclude ''src/Tests/Foo.swift'' patterns = Return True)
   \<and> shouldExclude ''Sources/Tests.swift'' (ps @ ''Tests'' # qs)
       = shouldExclude ''Sources/Tests.swift'' (ps @ qs)"
proof -
  have 1: "excludes ''Tests'' ''Tests''" by (simp add: excludes_def)
  have 2: "excludes ''Tests/Foo.swift'' ''Tests''"
    by (simp add: excludes_literal [OF literal_Tests] Separator_def)
  have 3: "excludes ''src/Tests/Foo.swift'' ''Tests''"
    by (simp add: excludes_literal [OF literal_Tests] Separator_def)
  have 4: "\<not> excludes ''Sources/Tests.swift'' ''Tests''"
    by (simp add: excludes_literal [OF literal_Tests] Separator_def Base_def dirMatch_def HasSuffix_def)
  show ?thesis using 1 2 3 4 by (auto simp: shouldExclude_eq)
qed

theorem segment_glob_Tests_witness:
  "''Tests'' \<in> set [''.git'', ''Tests'']
   \<and> shouldExclude ''Tests'' [''.git'', ''Tests''] = Return True
   \<and> shouldExclude ''Tests/Foo.swift'' [''.git'', ''Tests''] = Return True
   \<and> shouldExclude ''src/Tests/Foo.swift'' [''.git'', ''Tests''] = Return True
   \<and> shouldExclude ''Sources/Tests.swift'' [''Tests''] = Return False"
  using segment_glob_Tests [of "[''.git'', ''Tests'']" "[]" "[]"]
  by (simp del: shouldExclude.simps(2))

section \<open>Directory prefix\<close>

text \<open>
  C2. The directory pattern \<open>X/\<close> makes shouldExclude return true exactly for the path
  \<open>X\<close> and for the paths that begin with \<open>X/\<close>: wherever it stands in the pattern
  list, the result is true for these paths and, for every other path, the result of the
  list without it. In particular \<open>X/\<close> alone does not exclude \<open>Xylophone\<close>.
\<close>

theorem directory_prefix_X:
  "shouldExclude path (ps @ ''X/'' # qs) =
     (if path = ''X'' \<or> prefix ''X/'' path then Return True else shouldExclude path (ps @ qs))
   \<and> shouldExclude ''Xylophone'' [''X/''] = Return False"
proof -
  have "literal ''X''" by (simp add: literal_def backslash_def)
  from excludes_directory [OF this]
  have e: "\<And>path. excludes path ''X/'' \<longleftrightarrow> path = ''X'' \<or> prefix ''X/'' path" by simp
  have "shouldExclude ''Xylophone'' ([] @ ''X/'' # []) = Return False"
    unfolding shouldExclude_append e by simp
  then show ?thesis by (simp add: shouldExclude_append e del: shouldExclude.simps(2))
qed

theorem directory_prefix_X_witness:
  "shouldExclude ''X'' [''.git'', ''X/''] = Return True
   \<and> shouldExclude ''X/a.swift'' [''.git'', ''X/''] = Return True
   \<and> shouldExclude ''Xylophone'' [''X/''] = Return False"
  using directory_prefix_X [of "''X''" "[''.git'']" "[]"]
    directory_prefix_X [of "''X/a.swift''" "[''.git'']" "[]"]
  by (simp del: shouldExclude.simps(2))

section \<open>shouldExclude is total\<close>

text \<open>
  C10, as stated, fails: a pattern with malformed glob syntax is not always treated as
  non-matching. The pattern \<open>[x\<close> excludes the path \<open>[x\<close>, and the pattern \<open>[x/\<close>
  the path \<open>[x/a.swift\<close>, although \<open>filepath.Match\<close> reports an error for these
  patterns on every name it is tried on: the two steps before the glob compare the
  pattern with the path as plain text.
\<close>

theorem malformed_pattern_counterexample:
  "Base ''[x'' # Split ''[x'' Separator = [''[x'', ''[x'']
   \<and> matchError (Match ''[x'' ''[x'')
   \<and> shouldExclude ''[x'' [''[x''] = Return True
   \<and> Base ''[x/a.swift'' # Split ''[x/a.swift'' Separator = [''a.swift'', ''[x'', ''a.swift'']
   \<and> matchError (Match ''[x/'' ''[x'') \<and> matchError (Match ''[x/'' ''a.swift'')
   \<and> shouldExclude ''[x/a.swift'' [''[x/''] = Return True"
proof -
  have m: "Match ''[x'' ''[x'' = Return (False, Some ErrBadPattern)"
    "Match ''[x/'' ''[x'' = Return (False, Some ErrBadPattern)"
    "Match ''[x/'' ''a.swift'' = Return (False, Some ErrBadPattern)"
    by (simp_all add: Match_eval)
  have b: "Base ''[x'' # Split ''[x'' Separator = [''[x'', ''[x'']"
    "Base ''[x/a.swift'' # Split ''[x/a.swift'' Separator = [''a.swift'', ''[x'', ''a.swift'']"
    by (simp_all add: Base_def Separator_def)
  have s: "shouldExclude ''[x'' [''[x''] = Return True"
    "shouldExclude ''[x/a.swift'' [''[x/''] = Return True"
    by (simp_all add: HasSuffix_def TrimSuffix_def HasPrefix_def Separator_def)
  from m b s show ?thesis by simp
qed

text \<open>
  C10, amended. shouldExclude returns a boolean for every path and every pattern list:
  no call panics and no error is returned. When \<open>filepath.Match\<close> reports an error for a
  pattern on every name it is tried on (the parts of the path and its base name), the
  error is discarded and the glob steps do not match: the pattern excludes the path only
  through the two steps that do not use the glob (the directory prefix and the equality
  of path and pattern), and the other patterns of the list are evaluated as if it were
  not there.
\<close>

theorem shouldExclude_total:
  "(\<exists>b. shouldExclude path patterns = Return b)
   \<and> ((\<forall>name \<in> set (Base path # Split path Separator). matchError (Match pattern name)) \<longrightarrow>
        shouldExclude path (ps @ pattern # qs) =
          (if dirMatch path pattern \<or> path = pattern then Return True
           else shouldExclude path (ps @ qs)))"
proof -
  have "(\<forall>name \<in> set (Base path # Split path Separator). matchError (Match pattern name)) \<Longrightarrow>
        excludes path pattern \<longleftrightarrow> dirMatch path pattern \<or> path = pattern"
    by (auto simp: excludes_def dest: matchError_unmatched)
  then show ?thesis by (auto simp: shouldExclude_eq)
qed

theorem shouldExclude_total_witness:
  "Base ''a/b'' # Split ''a/b'' Separator = [''b'', ''a'', ''b'']
   \<and> matchError (Match ''[x'' ''a'') \<and> matchError (Match ''[x'' ''b'')
   \<and> shouldExclude ''a/b'' [''c'', ''[x'', ''b''] = Return True
   \<and> shouldExclude ''a/b'' [''c'', ''[x''] = Return False"
proof -
  have m: "Match ''[x'' ''a'' = Return (False, Some ErrBadPattern)"
    "Match ''[x'' ''b'' = Return (False, Some ErrBadPattern)"
    by (simp_all add: Match_eval)
  have h: "\<forall>name \<in> set (Base ''a/b'' # Split ''a/b'' Separator). matchError (Match ''[x'' name)"
    by (simp add: Base_def Separator_def m)
  have d: "\<not> (dirMatch ''a/b'' ''[x'' \<or> ''a/b'' = ''[x'')"
    by (simp add: dirMatch_def HasSuffix_def)
  have r1: "shouldExclude ''a/b'' ([''c''] @ [''b'']) = Return True"
    by (simp add: HasSuffix_def Base_def Match_eval)
  have r2: "shouldExclude ''a/b'' ([''c''] @ []) = Return False"
    by (simp add: HasSuffix_def Base_def Match_eval)
  from shouldExclude_total [of "''a/b''" "[]" "''[x''" "[''c'']" "[''b'']"] h d r1
  have 1: "shouldExclude ''a/b'' [''c'', ''[x'', ''b''] = Return True"
    by (simp del: shouldExclude.simps(2))
  from shouldExclude_total [of "''a/b''" "[]" "''[x''" "[''c'']" "[]"] h d r2
  have 2: "shouldExclude ''a/b'' [''c'', ''[x''] = Return False"
    by (simp del: shouldExclude.simps(2))
  have b: "Base ''a/b'' # Split ''a/b'' Separator = [''b'', ''a'', ''b'']"
    by (simp add: Base_def Separator_def)
  from b m 1 2 show ?thesis by simp
qed

section \<open>Publish\<close>

text \<open>
  C5. Publish returns nil exactly when it has sent its request and the registry has
  responded to it with status 200 or 201: whenever the registry responds with another
  status Publish returns the error \<open>publish failed with status\<close>, the status code and
  the text of the body, and without a response (the archive cannot be opened or its size
  read, the request cannot be made or sent) it returns an error too. Publish sends at
  most one request, and exactly one when the archive can be opened and the request made;
  every request it sends is a PUT to the path of the release whose Digest header is
  \<open>sha-256=\<close> followed by the checksum and whose Content-Length is the number of bytes
  of the archive file, which is its body.
\<close>

theorem Publish_status:
  assumes "Publish c w scope name version archivePath checksum = (r, w')"
  shows "(r = None \<longleftrightarrow>
            (\<exists>req resp. sent w' = sent w @ [req] \<and> respond w req = Inr resp
               \<and> (StatusCode resp = 200 \<or> StatusCode resp = 201)))
         \<and> (\<forall>req resp. sent w' = sent w @ [req] \<and> respond w req = Inr resp \<longrightarrow>
            (r = None \<longleftrightarrow> StatusCode resp = 200 \<or> StatusCode resp = 201)
            \<and> (r \<noteq> None \<longrightarrow>
                 r = Some (Error (''publish failed with status '' @ Sprintd (StatusCode resp)
                                  @ '': '' @ Body resp))))
         \<and> (\<exists>reqs. sent w' = sent w @ reqs \<and> length reqs \<le> 1
              \<and> (\<forall>req \<in> set reqs.
                    Method req = ''PUT''
                    \<and> URL req = baseURL c @ ''/'' @ scope @ ''/'' @ name @ ''/'' @ version
                    \<and> Header req ''Digest'' = Some (''sha-256='' @ checksum)
                    \<and> (\<exists>content. files w archivePath = Some content
                          \<and> ContentLength req = int (length content)
                          \<and> ReqBody req = content)))
         \<and> (files w archivePath \<noteq> None \<and> statError w archivePath = None
              \<and> urlError w (baseURL c @ ''/'' @ scope @ ''/'' @ name @ ''/'' @ version) = None
              \<longrightarrow> (\<exists>req. sent w' = sent w @ [req]))"
  using assms
  by (auto simp: Publish_def Let_def Do_def Open_def Stat_Size_def NewRequestWithContext_def
        Header_Set_def StatusOK_def StatusCreated_def
        split: sum.splits if_splits option.splits)

theorem Publish_status_witness:
  "fst (Publish exampleClient (exampleWorld 201 []) ''s'' ''n'' ''1.0.0'' ''/tmp/a.zip'' ''abc'')
     = None
   \<and> fst (Publish exampleClient (exampleWorld 409 ''exists'') ''s'' ''n'' ''1.0.0'' ''/tmp/a.zip''
           ''abc'')
       = Some (Error ''publish failed with status 409: exists'')
   \<and> fst (Publish exampleClient (exampleWorld 201 []) ''s'' ''n'' ''1.0.0'' ''/tmp/none.zip''
           ''abc'')
       \<noteq> None
   \<and> map ContentLength
        (sent (snd (Publish exampleClient (exampleWorld 201 []) ''s'' ''n'' ''1.0.0''
                      ''/tmp/a.zip'' ''abc''))) = [2]"
proof -
  let ?p = "\<lambda>status body.
    Publish exampleClient (exampleWorld status body) ''s'' ''n'' ''1.0.0'' ''/tmp/a.zip'' ''abc''"
  let ?q = "Publish exampleClient (exampleWorld 201 []) ''s'' ''n'' ''1.0.0'' ''/tmp/none.zip''
              ''abc''"
  have s: "\<And>status body.
    sent (snd (?p status body)) = sent (exampleWorld status body) @ [last (sent (snd (?p status body)))]"
    by (simp add: registry_eval)
  have r: "\<And>status body req.
    respond (exampleWorld status body) req = Inr \<lparr>StatusCode = status, Body = body\<rparr>"
    by (simp add: exampleWorld_def)
  note T = Publish_status [OF prod.collapse [symmetric], THEN conjunct2, THEN conjunct1,
      rule_format]
  have 1: "fst (?p 201 []) = None"
    using T [OF conjI [OF s [of 201 "[]"] r]] by simp
  have 2: "fst (?p 409 ''exists'') = Some (Error ''publish failed with status 409: exists'')"
    using T [OF conjI [OF s [of 409 "''exists''"] r]]
    by (simp add: Sprintd_def decimal.simps digit_def)
  have n: "sent (snd ?q) = sent (exampleWorld 201 [])"
    by (simp add: registry_eval)
  have 3: "fst ?q \<noteq> None"
    using Publish_status [OF prod.collapse [symmetric], THEN conjunct1, of exampleClient
        "exampleWorld 201 []" "''s''" "''n''" "''1.0.0''" "''/tmp/none.zip''" "''abc''"] n
    by simp
  have 4: "map ContentLength (sent (snd (?p 201 []))) = [2]"
    by (simp add: registry_eval)
  from 1 2 3 4 show ?thesis by simp
qed

section \<open>GetRelease and ListReleases by status\<close>

text \<open>
  C6, as stated, fails: a 2xx response other than 200 is an error for GetRelease. At
  status 204 GetRelease returns the error \<open>failed to get release: status 204\<close>.
\<close>

theorem GetRelease_204_counterexample:
  "fst (GetRelease exampleClient (exampleWorld 204 []) ''s'' ''n'' ''1.0.0'')
     = Inl (Error ''failed to get release: status 204: '')"
  by (simp add: registry_eval)

text \<open>
  C6, amended. Whenever GetRelease sends its request and the registry responds to it,
  GetRelease returns absent (no release, no error) on status 404, a release and no error
  on status 200, and an error on every other status (500, and the 2xx statuses other
  than 200 as well). ListReleases returns the empty sequence and no error on status 404.
\<close>

theorem GetRelease_by_status:
  "(GetRelease c w scope name version = (r, w') \<and> sent w' = sent w @ [req]
      \<and> respond w req = Inr resp \<longrightarrow>
        (StatusCode resp = 404 \<longrightarrow> r = Inr None)
        \<and> (StatusCode resp = 200 \<longrightarrow> (\<exists>release. r = Inr (Some release)))
        \<and> (StatusCode resp \<noteq> 404 \<and> StatusCode resp \<noteq> 200 \<longrightarrow>
             r = Inl (Error (''failed to get release: status '' @ Sprintd (StatusCode resp)
                             @ '': '' @ Body resp))))
   \<and> (ListReleases c w scope name = (rl, wl) \<and> sent wl = sent w @ [reql]
        \<and> respond w reql = Inr respl \<and> StatusCode respl = 404 \<longrightarrow> rl = Inr [])"
  using GetRelease_cases [of c w scope name version r w' req resp]
    ListReleases_cases [of c w scope name rl wl reql respl]
  by auto

theorem GetRelease_by_status_witness:
  "fst (GetRelease exampleClient (exampleWorld 404 []) ''s'' ''n'' ''1.0.0'') = Inr None
   \<and> fst (GetRelease exampleClient (exampleWorld 500 ''down'') ''s'' ''n'' ''1.0.0'')
       = Inl (Error ''failed to get release: status 500: down'')
   \<and> fst (ListReleases exampleClient (exampleWorld 404 []) ''s'' ''n'') = Inr []"
proof -
  let ?g = "\<lambda>status body. GetRelease exampleClient (exampleWorld status body) ''s'' ''n'' ''1.0.0''"
  let ?l = "ListReleases exampleClient (exampleWorld 404 []) ''s'' ''n''"
  have s: "\<And>status body.
    sent (snd (?g status body)) = sent (exampleWorld status body) @ [last (sent (snd (?g status body)))]"
    by (simp add: registry_eval)
  have sl: "sent (snd ?l) = sent (exampleWorld 404 []) @ [last (sent (snd ?l))]"
    by (simp add: registry_eval)
  have r: "\<And>status body req.
    respond (exampleWorld status body) req = Inr \<lparr>StatusCode = status, Body = body\<rparr>"
    by (simp add: exampleWorld_def)
  note G = GetRelease_by_status [THEN conjunct1, rule_format]
  note L = GetRelease_by_status [THEN conjunct2, rule_format]
  have 1: "fst (?g 404 []) = Inr None"
    using G [OF conjI [OF prod.collapse [symmetric] conjI [OF s [of 404 "[]"] r]]] by simp
  have 2: "fst (?g 500 ''down'') = Inl (Error ''failed to get release: status 500: down'')"
    using G [OF conjI [OF prod.collapse [symmetric] conjI [OF s [of 500 "''down''"] r]]]
    by (simp add: Sprintd_def decimal.simps digit_def)
  have 3: "fst ?l = Inr []"
    using L [OF conjI [OF prod.collapse [symmetric] conjI [OF sl conjI [OF r]]]] by simp
  from 1 2 3 show ?thesis by simp
qed

section \<open>The response body is not parsed\<close>

text \<open>
  C7. Whenever the registry responds with status 200, whatever the body of the response,
  ListReleases returns the empty sequence, and GetRelease returns a release whose Version
  is the version asked for and whose Checksum, Signature and Metadata are empty.
\<close>

theorem status_200_body_ignored:
  "(ListReleases c w scope name = (rl, wl) \<and> sent wl = sent w @ [reql]
      \<and> respond w reql = Inr respl \<and> StatusCode respl = 200 \<longrightarrow> rl = Inr [])
   \<and> (GetRelease c w scope name version = (r, w') \<and> sent w' = sent w @ [req]
        \<and> respond w req = Inr resp \<and> StatusCode resp = 200 \<longrightarrow>
          r = Inr (Some \<lparr>Version = version, Checksum = [], Signature = [],
                         Metadata = Map.empty\<rparr>))"
  using GetRelease_cases [of c w scope name version r w' req resp]
    ListReleases_cases [of c w scope name rl wl reql respl]
  by auto

theorem status_200_body_ignored_witness:
  "fst (ListReleases exampleClient (exampleWorld 200 ''[{}]'') ''s'' ''n'') = Inr []
   \<and> fst (GetRelease exampleClient (exampleWorld 200 ''{}'') ''s'' ''n'' ''1.0.0'')
       = Inr (Some \<lparr>Version = ''1.0.0'', Checksum = [], Signature = [], Metadata = Map.empty\<rparr>)"
proof -
  let ?g = "GetRelease exampleClient (exampleWorld 200 ''{}'') ''s'' ''n'' ''1.0.0''"
  let ?l = "ListReleases exampleClient (exampleWorld 200 ''[{}]'') ''s'' ''n''"
  have s: "sent (snd ?g) = sent (exampleWorld 200 ''{}'') @ [last (sent (snd ?g))]"
    by (simp add: registry_eval)
  have sl: "sent (snd ?l) = sent (exampleWorld 200 ''[{}]'') @ [last (sent (snd ?l))]"
    by (simp add: registry_eval)
  have r: "\<And>status body req.
    respond (exampleWorld status body) req = Inr \<lparr>StatusCode = status, Body = body\<rparr>"
    by (simp add: exampleWorld_def)
  note L = status_200_body_ignored [THEN conjunct1, rule_format]
  note G = status_200_body_ignored [THEN conjunct2, rule_format]
  have 1: "fst ?l = Inr []"
    using L [OF conjI [OF prod.collapse [symmetric] conjI [OF sl conjI [OF r]]]] by simp
  have 2: "fst ?g = Inr (Some \<lparr>Version = ''1.0.0'', Checksum = [], Signature = [],
                               Metadata = Map.empty\<rparr>)"
    using G [OF conjI [OF prod.collapse [symmetric] conjI [OF s conjI [OF r]]]] by simp
  from 1 2 show ?thesis by simp
qed

section \<open>Only files become entries\<close>

text \<open>
  C3. When CreateArchive succeeds, the temporary file holds the container of a list of
  entries, and every entry was written for a file of the source tree that could be read:
  some names, at least one (so the source root itself is never an entry), lead from the
  root down to a file (never to a directory) with the entry's bytes and the entry's name
  is the relative path of the file. No relative path on the way from the root to the
  file is excluded, the root's own \<open>.\<close> apart: nothing under an excluded directory is in
  the archive.
\<close>

theorem CreateArchive_only_files:
  assumes "CreateArchive env fs sourceDir version cfg = Return ((archivePath, checksum, None), fs')"
  shows "\<exists>zipWriter.
           fs' archivePath = Some (zipBytes env zipWriter)
           \<and> (\<forall>e \<in> set zipWriter.
                \<exists>names n mode bytes.
                  names \<noteq> []
                  \<and> reaches sourceDir names (File n mode (Inr bytes))
                  \<and> Name e = ReplaceAll (Rel names) Separator CHR ''/''
                  \<and> Data e = bytes
                  \<and> (\<forall>k \<le> length names. kept cfg (take k names)))"
proof -
  from CreateArchive_cases [OF assms] obtain zw where
    w: "Walk env cfg sourceDir [] = Return (None, zw)" and f: "fs' = fs(archivePath \<mapsto> zipBytes env zw)"
    by auto
  have "\<forall>e \<in> set zw.
          \<exists>names n mode bytes.
            names \<noteq> []
            \<and> reaches sourceDir names (File n mode (Inr bytes))
            \<and> Name e = ReplaceAll (Rel names) Separator CHR ''/''
            \<and> Data e = bytes
            \<and> (\<forall>k \<le> length names. kept cfg (take k names))"
  proof
    fix e assume "e \<in> set zw"
    with Walk_added [OF w] obtain ns where fe: "fileEntry sourceDir [] ns e"
      and k: "\<forall>k. k \<le> length ns \<longrightarrow> kept cfg (take k ns)"
      by (auto simp: added_def)
    from fe obtain n mode bytes where r: "reaches sourceDir ns (File n mode (Inr bytes))"
      and e: "e = \<lparr>Name = ReplaceAll (Rel ns) Separator CHR ''/'', Mode = mode, Data = bytes\<rparr>"
      and nr: "Rel ns \<noteq> ''.''"
      by (auto simp: fileEntry_def)
    from nr have "ns \<noteq> []" by (auto simp: Rel_def)
    moreover from e have "Name e = ReplaceAll (Rel ns) Separator CHR ''/''" "Data e = bytes"
      by simp_all
    ultimately show "\<exists>names n mode bytes.
            names \<noteq> []
            \<and> reaches sourceDir names (File n mode (Inr bytes))
            \<and> Name e = ReplaceAll (Rel names) Separator CHR ''/''
            \<and> Data e = bytes
            \<and> (\<forall>k \<le> length names. kept cfg (take k names))"
      using r k by blast
  qed
  with f show ?thesis by auto
qed

theorem CreateArchive_only_files_witness:
  "CreateArchive exampleEnv Map.empty exampleTree ''1.0.0'' exampleConfig =
     Return
       ((''/tmp/swift-package-1.zip'', ''ab0f'', None),
        [''/tmp/swift-package-1.zip'' \<mapsto>
           ''Package.swift// swift-tools-version:5.7Sources/main.swiftprint()''])
   \<and> (\<exists>zipWriter.
          [''/tmp/swift-package-1.zip'' \<mapsto>
             ''Package.swift// swift-tools-version:5.7Sources/main.swiftprint()'']
            ''/tmp/swift-package-1.zip'' = Some (zipBytes exampleEnv zipWriter)
          \<and> (\<forall>e \<in> set zipWriter.
               \<exists>names n mode bytes.
                 names \<noteq> []
                 \<and> reaches exampleTree names (File n mode (Inr bytes))
                 \<and> Name e = ReplaceAll (Rel names) Separator CHR ''/''
                 \<and> Data e = bytes
                 \<and> (\<forall>k \<le> length names. kept exampleConfig (take k names))))"
proof -
  have ev: "CreateArchive exampleEnv Map.empty exampleTree ''1.0.0'' exampleConfig =
     Return
       ((''/tmp/swift-package-1.zip'', ''ab0f'', None),
        [''/tmp/swift-package-1.zip'' \<mapsto>
           ''Package.swift// swift-tools-version:5.7Sources/main.swiftprint()''])"
    by (simp add: archive_eval Match_eval)
  from CreateArchive_only_files [OF ev] ev show ?thesis by blast
qed

section \<open>Errors and the temporary file\<close>




end
